theory Spec2Isabelle
  imports Complex_Main "HOL-Library.AList"
begin

section \<open>Types of the platform detection engine (src/types/index.ts)\<close>

datatype PlatformType =
  youtube | bilibili | twitter | medium | zhihu | github | weibo | tiktok
  | reddit | stackoverflow | devto | hackernews | generic

text \<open>
  The content type \<open>'generic'\<close> is written \<open>generic_content\<close>: the platform
  type already owns the name \<open>generic\<close>.
\<close>

datatype ContentType =
  article | video | image_gallery | tweet | code_repository | documentation
  | discussion | generic_content

datatype ProcessingStrategy = clip | watch_later | bookmark | ignore

text \<open>
  A rule of the rule manager. The free-text field \<open>description\<close> of the source
  is read by no code and is left out. Priorities are JavaScript numbers; the model
  takes the integers.
\<close>

record PlatformRule =
  platform :: PlatformType
  patterns :: "string list"
  contentType :: ContentType
  metadataExtractor :: "string option"
  priority :: int
  enabled :: bool

section \<open>Strings\<close>

text \<open>
  A JavaScript string is a sequence of UTF-16 code units; the model keeps the code
  units below 256, one \<open>char\<close> each. \<open>String.prototype.trim\<close> removes white
  space and line terminators at both ends; of these TAB, LF, VT, FF, CR, SPACE and the
  no-break space U+00A0 lie below 256.
\<close>

definition code :: "char \<Rightarrow> int" where
  "code c = of_char c"

definition isWhiteSpace :: "char \<Rightarrow> bool" where
  "isWhiteSpace c = (List.member [9, 10, 11, 12, 13, 32, 160] (code c))"

definition trim :: "string \<Rightarrow> string" where
  "trim s = rev (dropWhile isWhiteSpace (rev (dropWhile isWhiteSpace s)))"

text \<open>
  An Isabelle string literal cannot hold a backslash. The pattern tables below write
  \<open>~\<close> where the regular expression has a backslash, and \<open>esc\<close> puts the
  backslash back; no pattern of the source contains a tilde.
\<close>

definition esc :: "string \<Rightarrow> string" where
  "esc s = map (\<lambda>c. if c = CHR ''~'' then CHR 0x5C else c) s"

section \<open>The regular expression engine of the platform\<close>

text \<open>
  \<open>RegExp\<close> and \<open>String.prototype.match\<close> are built-ins of the language, not
  code of the repository; the functions that use them take them as a parameter.
  \<^item> \<open>RegExp_i p s\<close> is \<open>new RegExp(p, 'i').exec(s)\<close> read as a truth value:
    \<open>None\<close> when the constructor throws a SyntaxError, \<open>Some b\<close> otherwise.
  \<^item> \<open>String_match p s\<close> is \<open>s.match(/p/)\<close> for a regular expression literal:
    \<open>None\<close> when nothing matches, otherwise the capture groups 1, 2, ...
    (an unset group is the empty string here; the callers only test groups for
    truthiness).
\<close>

record regexp_engine =
  RegExp_i :: "string \<Rightarrow> string \<Rightarrow> bool option"
  String_match :: "string \<Rightarrow> string \<Rightarrow> string list option"

section \<open>Rule manager (src/unnamed/part\_005)\<close>

record PlatformDetectionIntermediate =
  d_platform :: PlatformType
  d_confidence :: rat
  d_matchedPattern :: "string option"
  d_extractedId :: "string option"

text \<open>
  \<open>this.rules.sort((a, b) => b.priority - a.priority)\<close>: a stable sort by
  descending priority. \<open>sort_key\<close> is stable.
\<close>

definition sortRules :: "PlatformRule list \<Rightarrow> PlatformRule list" where
  "sortRules rs = sort_key (\<lambda>r. - priority r) rs"

definition mkRule ::
  "PlatformType \<Rightarrow> string list \<Rightarrow> ContentType \<Rightarrow> string option \<Rightarrow> int \<Rightarrow> PlatformRule" where
  "mkRule pf ps ct ex pr =
     \<lparr>platform = pf, patterns = map esc ps, contentType = ct, metadataExtractor = ex,
      priority = pr, enabled = True\<rparr>"

definition getBuiltinRules :: "PlatformRule list" where
  "getBuiltinRules =
    [mkRule youtube
       [''^https://(?:www~.)?youtube~.com/watch~?v=[~w-]{11}'',
        ''^https://youtu~.be/[~w-]{11}'',
        ''^https://(?:www~.)?youtube~.com/shorts/[~w-]+'',
        ''^https://(?:www~.)?youtube~.com/playlist~?list=[~w-]+'']
       video (Some ''youtube'') 100,
     mkRule bilibili
       [''^https://www~.bilibili~.com/video/[A-Za-z0-9]+'',
        ''^https://www~.bilibili~.com/bangumi/play/[a-z0-9]+'',
        ''^https://b23~.tv/[A-Za-z0-9]+'',
        ''^https://(?:www~.)?bilibili~.com/read/[a-z0-9]+'']
       video (Some ''bilibili'') 95,
     mkRule twitter
       [''^https://(?:twitter~.com|x~.com)/[~w_]+/status/~d+'',
        ''^https://(?:twitter~.com|x~.com)/[~w_]+'']
       tweet (Some ''twitter'') 90,
     mkRule medium
       [''^https://medium~.com/@[~w.-]+/[~w-]+'',
        ''^https://[~w-]+~.medium~.com/[~w-]+'']
       article (Some ''medium'') 85,
     mkRule zhihu
       [''^https://www~.zhihu~.com/question/~d+'',
        ''^https://zhuanlan~.zhihu~.com/p/~d+'',
        ''^https://www~.zhihu~.com/answer/~d+'',
        ''^https://www~.zhihu~.com/zvideo/~d+'']
       article (Some ''zhihu'') 80,
     mkRule github
       [''^https://github~.com/[~w.-]+/[~w.-]+'',
        ''^https://github~.com/[~w.-]+/[~w.-]+/issues/~d+'',
        ''^https://github~.com/[~w.-]+/[~w.-]+/pull/~d+'',
        ''^https://github~.com/[~w.-]+/[~w.-]+/blob/'',
        ''^https://github~.com/[~w.-]+/[~w.-]+/tree/'']
       code_repository (Some ''github'') 75,
     mkRule weibo
       [''^https://weibo~.com/~d+/[A-Za-z0-9]+'',
        ''^https://m~.weibo~.cn/status/~d+'']
       tweet (Some ''weibo'') 70,
     mkRule tiktok
       [''^https://www~.tiktok~.com/@[~w.-]+/video/~d+'',
        ''^https://vt~.tiktok~.com/[A-Za-z0-9]+'']
       video (Some ''tiktok'') 65,
     mkRule reddit
       [''^https://www~.reddit~.com/r/[~w]+/comments/[~w]+'',
        ''^https://old~.reddit~.com/r/[~w]+/comments/[~w]+'']
       discussion (Some ''reddit'') 60,
     mkRule stackoverflow
       [''^https://stackoverflow~.com/questions/~d+/'',
        ''^https://stackoverflow~.com/a/~d+'']
       discussion (Some ''stackoverflow'') 55,
     mkRule devto
       [''^https://dev~.to/[~w.-]+/[~w-]+'']
       article (Some ''devto'') 50,
     mkRule hackernews
       [''^https://news~.ycombinator~.com/item~?id=~d+'']
       discussion (Some ''hackernews'') 45,
     mkRule generic
       [''^https?://[^/]+/blog/[^/]+'',
        ''^https?://[^/]+/article/[^/]+'',
        ''^https?://[^/]+/post/[^/]+'',
        ''^https?://[^/]+/news/[^/]+'']
       article None 10]"

text \<open>
  \<open>initializeRules\<close>: the configured rules when there are any, the built-in ones
  otherwise, sorted.
\<close>

definition initializeRules :: "PlatformRule list \<Rightarrow> PlatformRule list" where
  "initializeRules configured =
     sortRules (if length configured > 0 then configured else getBuiltinRules)"

text \<open>
  The four private helpers that read a platform id off the URL. Each tries its
  regular expression literals in order and returns the first non-empty group 1.
\<close>

fun firstGroup :: "regexp_engine \<Rightarrow> string list \<Rightarrow> string \<Rightarrow> string option" where
  "firstGroup E [] url = None"
| "firstGroup E (p # ps) url =
     (case String_match E p url of
        Some (g # gs) \<Rightarrow> (if g \<noteq> [] then Some g else firstGroup E ps url)
      | _ \<Rightarrow> firstGroup E ps url)"

definition extractYouTubeId :: "regexp_engine \<Rightarrow> string \<Rightarrow> string option" where
  "extractYouTubeId E url = firstGroup E (map esc
     [''youtube~.com~/watch~?v=([~w-]{11})'',
      ''youtu~.be~/([~w-]{11})'',
      ''youtube~.com~/shorts~/([~w-]+)'',
      ''youtube~.com~/playlist~?list=([~w-]+)'']) url"

definition extractBilibiliId :: "regexp_engine \<Rightarrow> string \<Rightarrow> string option" where
  "extractBilibiliId E url = firstGroup E (map esc
     [''bilibili~.com~/video~/([A-Za-z0-9]+)'',
      ''bilibili~.com~/bangumi~/play~/([a-z0-9]+)'',
      ''b23~.tv~/([A-Za-z0-9]+)'',
      ''bilibili~.com~/read~/([a-z0-9]+)'']) url"

definition extractTwitterId :: "regexp_engine \<Rightarrow> string \<Rightarrow> string option" where
  "extractTwitterId E url = firstGroup E (map esc
     [''(?:twitter~.com|x~.com)~/~w+~/status~/(~d+)'',
      ''(?:twitter~.com|x~.com)~/(~w+)'']) url"

definition extractGitHubId :: "regexp_engine \<Rightarrow> string \<Rightarrow> string option" where
  "extractGitHubId E url =
     (case String_match E (esc ''github~.com~/([~w.-]+)~/([~w.-]+)'') url of
        Some (g1 # g2 # gs) \<Rightarrow>
          (if g1 \<noteq> [] \<and> g2 \<noteq> [] then Some (g1 @ ''/'' @ g2) else None)
      | _ \<Rightarrow> None)"

definition extractId :: "regexp_engine \<Rightarrow> PlatformType \<Rightarrow> string \<Rightarrow> string option" where
  "extractId E pf url =
     (case pf of
        youtube \<Rightarrow> extractYouTubeId E url
      | bilibili \<Rightarrow> extractBilibiliId E url
      | twitter \<Rightarrow> extractTwitterId E url
      | github \<Rightarrow> extractGitHubId E url
      | _ \<Rightarrow> None)"

text \<open>
  The inner loop of \<open>detectPlatform\<close> over the patterns of one rule. A pattern
  whose construction throws is logged and skipped (the \<open>try\<close> is around each
  pattern). \<open>if (pattern) result.matchedPattern = pattern\<close>: the empty pattern is
  falsy and leaves the field unset.
\<close>

fun matchPatterns ::
  "regexp_engine \<Rightarrow> PlatformRule \<Rightarrow> string list \<Rightarrow> string \<Rightarrow> PlatformDetectionIntermediate option" where
  "matchPatterns E rule [] url = None"
| "matchPatterns E rule (p # ps) url =
     (case RegExp_i E p url of
        Some True \<Rightarrow>
          Some \<lparr>d_platform = platform rule, d_confidence = 9 / 10,
                d_matchedPattern = (if p \<noteq> [] then Some p else None),
                d_extractedId = extractId E (platform rule) url\<rparr>
      | Some False \<Rightarrow> matchPatterns E rule ps url
      | None \<Rightarrow> matchPatterns E rule ps url)"

text \<open>The outer loop over the rules, in list order; disabled rules are skipped.\<close>

fun matchRules ::
  "regexp_engine \<Rightarrow> PlatformRule list \<Rightarrow> string \<Rightarrow> PlatformDetectionIntermediate" where
  "matchRules E [] url =
     \<lparr>d_platform = generic, d_confidence = 1 / 10, d_matchedPattern = None,
      d_extractedId = None\<rparr>"
| "matchRules E (rule # rules) url =
     (if \<not> enabled rule then matchRules E rules url
      else (case matchPatterns E rule (patterns rule) url of
              Some result \<Rightarrow> result
            | None \<Rightarrow> matchRules E rules url))"

definition detectPlatform ::
  "regexp_engine \<Rightarrow> PlatformRule list \<Rightarrow> string \<Rightarrow> PlatformDetectionIntermediate" where
  "detectPlatform E rules url = matchRules E rules (trim url)"

definition addRule :: "PlatformRule list \<Rightarrow> PlatformRule \<Rightarrow> PlatformRule list" where
  "addRule rules rule = sortRules (rules @ [rule])"

text \<open>
  \<open>updates: Partial<Omit<PlatformRule, 'platform'>>\<close>: every field but the
  platform, each present or absent. \<open>{ ...this.rules[index], ...updates }\<close>
  overrides the fields that are present.
\<close>

record RuleUpdates =
  u_patterns :: "string list option"
  u_contentType :: "ContentType option"
  u_metadataExtractor :: "string option option"
  u_priority :: "int option"
  u_enabled :: "bool option"

definition noUpdates :: RuleUpdates where
  "noUpdates = \<lparr>u_patterns = None, u_contentType = None, u_metadataExtractor = None,
                 u_priority = None, u_enabled = None\<rparr>"

definition applyUpdates :: "PlatformRule \<Rightarrow> RuleUpdates \<Rightarrow> PlatformRule" where
  "applyUpdates r u =
     \<lparr>platform = platform r,
      patterns = (case u_patterns u of Some v \<Rightarrow> v | None \<Rightarrow> patterns r),
      contentType = (case u_contentType u of Some v \<Rightarrow> v | None \<Rightarrow> contentType r),
      metadataExtractor =
        (case u_metadataExtractor u of Some v \<Rightarrow> v | None \<Rightarrow> metadataExtractor r),
      priority = (case u_priority u of Some v \<Rightarrow> v | None \<Rightarrow> priority r),
      enabled = (case u_enabled u of Some v \<Rightarrow> v | None \<Rightarrow> enabled r)\<rparr>"

text \<open>
  \<open>findIndex\<close> takes the first rule of the platform; the slot is overwritten in
  place and the list is not sorted again. The result pairs the new list with the
  boolean the method returns.
\<close>

fun updateRule ::
  "PlatformRule list \<Rightarrow> PlatformType \<Rightarrow> RuleUpdates \<Rightarrow> PlatformRule list \<times> bool" where
  "updateRule [] pf u = ([], False)"
| "updateRule (r # rs) pf u =
     (if platform r = pf then (applyUpdates r u # rs, True)
      else (case updateRule rs pf u of (rs', found) \<Rightarrow> (r # rs', found)))"

definition setRuleEnabled ::
  "PlatformRule list \<Rightarrow> PlatformType \<Rightarrow> bool \<Rightarrow> PlatformRule list \<times> bool" where
  "setRuleEnabled rules pf en = updateRule rules pf (noUpdates\<lparr>u_enabled := Some en\<rparr>)"

text \<open>
  \<open>loadRulesFromUrl\<close>: nothing happens unless dynamic loading is configured; a
  failed fetch or a body that is not an array (\<open>None\<close>) is logged and leaves the
  rules as they are; an array replaces the rules and is sorted.
\<close>

definition loadRulesFromUrl ::
  "bool \<Rightarrow> PlatformRule list option \<Rightarrow> PlatformRule list \<Rightarrow> PlatformRule list" where
  "loadRulesFromUrl enableDynamicLoading fetched rules =
     (if \<not> enableDynamicLoading then rules
      else (case fetched of None \<Rightarrow> rules | Some rs \<Rightarrow> sortRules rs))"

text \<open>The sort order the rule manager aims at: priorities never increase along the list.\<close>

definition sortedByPriority :: "PlatformRule list \<Rightarrow> bool" where
  "sortedByPriority rs = sorted (map (\<lambda>r. - priority r) rs)"

section \<open>A model of the regular expression built-ins\<close>

text \<open>
  For the closed statements below the engine is made concrete: a parser for the
  fragment of the JavaScript pattern syntax that the tables of the repository use
  (literals, escapes of punctuation, \<open>\w\<close>, \<open>\d\<close>, \<open>.\<close>, \<open>^\<close>, \<open>$\<close>,
  character classes with ranges and negation, groups, alternation and the greedy
  quantifiers \<open>*\<close>, \<open>+\<close>, \<open>?\<close>, \<open>{n}\<close>), and a backtracking matcher
  that lists the matches in the order in which the built-in tries them. A pattern
  outside the fragment gets the answer of a pattern that the constructor rejects.
\<close>

datatype classItem = CChar char | CRange char char | CWord | CDigit

datatype regex =
  Eps | Bol | Eol | Chr char | AnyChar | Cls bool "classItem list"
  | Seq regex regex | Alt regex regex | Star regex | Group nat regex

definition isDigit :: "char \<Rightarrow> bool" where
  "isDigit c = (48 \<le> code c \<and> code c \<le> 57)"

definition isUpper :: "char \<Rightarrow> bool" where
  "isUpper c = (65 \<le> code c \<and> code c \<le> 90)"

definition isLower :: "char \<Rightarrow> bool" where
  "isLower c = (97 \<le> code c \<and> code c \<le> 122)"

definition isWordChar :: "char \<Rightarrow> bool" where
  "isWordChar c = (isUpper c \<or> isLower c \<or> isDigit c \<or> c = CHR ''_'')"

text \<open>
  Case mapping of the code units below 256: the ASCII letters, and the letters
  U+00C0 to U+00DE (without the multiplication sign U+00D7) against U+00E0 to U+00FE
  (without the division sign U+00F7).
\<close>

definition toLower :: "char \<Rightarrow> char" where
  "toLower c =
     (if isUpper c \<or> (192 \<le> code c \<and> code c \<le> 222 \<and> code c \<noteq> 215)
      then char_of (code c + 32) else c)"

definition toUpper :: "char \<Rightarrow> char" where
  "toUpper c =
     (if isLower c \<or> (224 \<le> code c \<and> code c \<le> 254 \<and> code c \<noteq> 247)
      then char_of (code c - 32) else c)"

definition toLowerCase :: "string \<Rightarrow> string" where
  "toLowerCase s = map toLower s"

text \<open>\<open>s.includes(sub)\<close>: \<open>sub\<close> occurs in \<open>s\<close> at some index.\<close>

definition includesStr :: "string \<Rightarrow> string \<Rightarrow> bool" where
  "includesStr s sub = list_ex (\<lambda>i. take (length sub) (drop i s) = sub) [0 ..< Suc (length s)]"

fun itemHas :: "classItem \<Rightarrow> char \<Rightarrow> bool" where
  "itemHas (CChar x) c = (x = c)"
| "itemHas (CRange lo hi) c = (code lo \<le> code c \<and> code c \<le> code hi)"
| "itemHas CWord c = isWordChar c"
| "itemHas CDigit c = isDigit c"

definition classHas :: "bool \<Rightarrow> classItem list \<Rightarrow> char \<Rightarrow> bool" where
  "classHas ci items c =
     (if ci then list_ex (\<lambda>i. itemHas i c \<or> itemHas i (toLower c) \<or> itemHas i (toUpper c)) items
      else list_ex (\<lambda>i. itemHas i c) items)"

definition chrEq :: "bool \<Rightarrow> char \<Rightarrow> char \<Rightarrow> bool" where
  "chrEq ci a b = (if ci then toLower a = toLower b else a = b)"

definition isLineTerminator :: "char \<Rightarrow> bool" where
  "isLineTerminator c = (code c = 10 \<or> code c = 13)"

type_synonym mstate = "bool \<times> string \<times> (nat \<times> string) list"

fun rxMatch :: "bool \<Rightarrow> nat \<Rightarrow> regex \<Rightarrow> mstate \<Rightarrow> mstate list" where
  "rxMatch ci n Eps st = [st]"
| "rxMatch ci n Bol (b, s, g) = (if b then [(b, s, g)] else [])"
| "rxMatch ci n Eol (b, s, g) = (if s = [] then [(b, s, g)] else [])"
| "rxMatch ci n (Chr c) (b, s, g) =
     (case s of [] \<Rightarrow> [] | x # xs \<Rightarrow> if chrEq ci c x then [(False, xs, g)] else [])"
| "rxMatch ci n AnyChar (b, s, g) =
     (case s of [] \<Rightarrow> [] | x # xs \<Rightarrow> if isLineTerminator x then [] else [(False, xs, g)])"
| "rxMatch ci n (Cls neg items) (b, s, g) =
     (case s of [] \<Rightarrow> []
      | x # xs \<Rightarrow> if classHas ci items x \<noteq> neg then [(False, xs, g)] else [])"
| "rxMatch ci n (Seq r1 r2) st = concat (map (rxMatch ci n r2) (rxMatch ci n r1 st))"
| "rxMatch ci n (Alt r1 r2) st = rxMatch ci n r1 st @ rxMatch ci n r2 st"
| "rxMatch ci 0 (Star r) st = [st]"
| "rxMatch ci (Suc n) (Star r) st =
     concat (map (\<lambda>st'. if length (fst (snd st')) < length (fst (snd st))
                         then rxMatch ci n (Star r) st' else [])
                 (rxMatch ci (Suc n) r st)) @ [st]"
| "rxMatch ci n (Group k r) (b, s, g) =
     map (\<lambda>(b', s', g'). (b', s', (k, take (length s - length s') s) # g'))
         (rxMatch ci n r (b, s, g))"

fun rxSearch :: "bool \<Rightarrow> regex \<Rightarrow> bool \<Rightarrow> string \<Rightarrow> mstate option" where
  "rxSearch ci r b s =
     (case rxMatch ci (length s) r (b, s, []) of
        st # sts \<Rightarrow> Some st
      | [] \<Rightarrow> (case s of [] \<Rightarrow> None | x # xs \<Rightarrow> rxSearch ci r False xs))"

definition digitsVal :: "string \<Rightarrow> int" where
  "digitsVal ds = foldl (\<lambda>a d. 10 * a + (code d - 48)) 0 ds"

fun rep :: "nat \<Rightarrow> regex \<Rightarrow> regex" where
  "rep 0 r = Eps"
| "rep (Suc n) r = Seq r (rep n r)"

definition escItem :: "char \<Rightarrow> classItem" where
  "escItem e = (if e = CHR ''w'' then CWord else if e = CHR ''d'' then CDigit else CChar e)"

definition supportedEscape :: "char \<Rightarrow> bool" where
  "supportedEscape e = (e = CHR ''w'' \<or> e = CHR ''d'' \<or> \<not> isWordChar e)"

fun parseItems :: "string \<Rightarrow> (classItem list \<times> string) option" where
  "parseItems [] = None"
| "parseItems (c # cs) =
     (if c = CHR '']'' then Some ([], cs)
      else if c = CHR 0x5C then
        (case cs of
           [] \<Rightarrow> None
         | e # cs' \<Rightarrow>
             if supportedEscape e
             then (case parseItems cs' of
                     None \<Rightarrow> None
                   | Some (items, rest) \<Rightarrow> Some (escItem e # items, rest))
             else None)
      else
        (case cs of
           d # hi # cs' \<Rightarrow>
             if d = CHR ''-'' \<and> hi \<noteq> CHR '']'' then
               (if hi = CHR 0x5C \<or> code hi < code c then None
                else (case parseItems cs' of
                        None \<Rightarrow> None
                      | Some (items, rest) \<Rightarrow> Some (CRange c hi # items, rest)))
             else (case parseItems cs of
                     None \<Rightarrow> None
                   | Some (items, rest) \<Rightarrow> Some (CChar c # items, rest))
         | _ \<Rightarrow> (case parseItems cs of
                  None \<Rightarrow> None
                | Some (items, rest) \<Rightarrow> Some (CChar c # items, rest))))"

definition parseClass :: "string \<Rightarrow> (regex \<times> string) option" where
  "parseClass cs =
     (case cs of
        [] \<Rightarrow> None
      | c # cs' \<Rightarrow>
          if c = CHR ''^''
          then map_option (\<lambda>(items, rest). (Cls True items, rest)) (parseItems cs')
          else map_option (\<lambda>(items, rest). (Cls False items, rest)) (parseItems cs))"

definition parseQuant :: "regex \<Rightarrow> string \<Rightarrow> (regex \<times> string) option" where
  "parseQuant a s =
     (case s of
        [] \<Rightarrow> Some (a, [])
      | c # cs \<Rightarrow>
          let q =
            (if c = CHR ''*'' then Some (Star a, cs)
             else if c = CHR ''+'' then Some (Seq a (Star a), cs)
             else if c = CHR ''?'' then Some (Alt a Eps, cs)
             else if c = CHR ''{'' then
               (let ds = takeWhile isDigit cs; rest = dropWhile isDigit cs
                in if ds \<noteq> [] \<and> rest \<noteq> [] \<and> hd rest = CHR ''}''
                   then Some (rep (nat (digitsVal ds)) a, tl rest) else None)
             else Some (a, s))
          in (case q of
                None \<Rightarrow> None
              | Some (r, rest) \<Rightarrow>
                  if c \<in> set ''*+?{'' \<and> rest \<noteq> [] \<and> hd rest \<in> set ''*+?{''
                  then None else Some (r, rest)))"

fun parseAlt :: "nat \<Rightarrow> string \<Rightarrow> nat \<Rightarrow> (regex \<times> string \<times> nat) option"
and parseSeq :: "nat \<Rightarrow> string \<Rightarrow> nat \<Rightarrow> (regex \<times> string \<times> nat) option"
and parseAtom :: "nat \<Rightarrow> string \<Rightarrow> nat \<Rightarrow> (regex \<times> string \<times> nat) option" where
  "parseAlt 0 s g = None"
| "parseAlt (Suc n) s g =
     (case parseSeq n s g of
        None \<Rightarrow> None
      | Some (r1, rest, g1) \<Rightarrow>
          if rest \<noteq> [] \<and> hd rest = CHR ''|''
          then (case parseAlt n (tl rest) g1 of
                  None \<Rightarrow> None
                | Some (r2, rest2, g2) \<Rightarrow> Some (Alt r1 r2, rest2, g2))
          else Some (r1, rest, g1))"
| "parseSeq 0 s g = None"
| "parseSeq (Suc n) s g =
     (if s = [] \<or> hd s = CHR '')'' \<or> hd s = CHR ''|'' then Some (Eps, s, g)
      else (case parseAtom n s g of
              None \<Rightarrow> None
            | Some (a, rest, g1) \<Rightarrow>
                (case parseQuant a rest of
                   None \<Rightarrow> None
                 | Some (q, rest1) \<Rightarrow>
                     (case parseSeq n rest1 g1 of
                        None \<Rightarrow> None
                      | Some (r2, rest2, g2) \<Rightarrow> Some (Seq q r2, rest2, g2)))))"
| "parseAtom 0 s g = None"
| "parseAtom (Suc n) s g =
     (case s of
        [] \<Rightarrow> None
      | c # cs \<Rightarrow>
          if c = CHR ''('' then
            (if take 2 cs = ''?:'' then
               (case parseAlt n (drop 2 cs) g of
                  None \<Rightarrow> None
                | Some (r, rest, g1) \<Rightarrow>
                    if rest \<noteq> [] \<and> hd rest = CHR '')'' then Some (r, tl rest, g1) else None)
             else if take 1 cs = ''?'' then None
             else
               (case parseAlt n cs (Suc g) of
                  None \<Rightarrow> None
                | Some (r, rest, g1) \<Rightarrow>
                    if rest \<noteq> [] \<and> hd rest = CHR '')''
                    then Some (Group (Suc g) r, tl rest, g1) else None))
          else if c = CHR ''['' then
            map_option (\<lambda>(r, rest). (r, rest, g)) (parseClass cs)
          else if c = CHR 0x5C then
            (case cs of
               [] \<Rightarrow> None
             | e # cs' \<Rightarrow>
                 if e = CHR ''w'' then Some (Cls False [CWord], cs', g)
                 else if e = CHR ''d'' then Some (Cls False [CDigit], cs', g)
                 else if \<not> isWordChar e then Some (Chr e, cs', g)
                 else None)
          else if c = CHR ''.'' then Some (AnyChar, cs, g)
          else if c = CHR ''^'' then Some (Bol, cs, g)
          else if c = CHR ''$'' then Some (Eol, cs, g)
          else if c \<in> set ''*+?{)|'' then None
          else Some (Chr c, cs, g))"

definition rxCompile :: "string \<Rightarrow> (regex \<times> nat) option" where
  "rxCompile p =
     (case parseAlt (3 * length p + 3) p 0 of
        Some (r, rest, g) \<Rightarrow> if rest = [] then Some (r, g) else None
      | None \<Rightarrow> None)"

definition js_RegExp_i :: "string \<Rightarrow> string \<Rightarrow> bool option" where
  "js_RegExp_i p s =
     (case rxCompile p of
        None \<Rightarrow> None
      | Some (r, g) \<Rightarrow> Some (rxSearch True r True s \<noteq> None))"

definition js_String_match :: "string \<Rightarrow> string \<Rightarrow> string list option" where
  "js_String_match p s =
     (case rxCompile p of
        None \<Rightarrow> None
      | Some (r, g) \<Rightarrow>
          (case rxSearch False r True s of
             None \<Rightarrow> None
           | Some (b, rest, groups) \<Rightarrow>
               Some (map (\<lambda>k. case map_of groups k of Some t \<Rightarrow> t | None \<Rightarrow> [])
                         [1 ..< Suc g])))"

definition jsEngine :: regexp_engine where
  "jsEngine = \<lparr>RegExp_i = js_RegExp_i, String_match = js_String_match\<rparr>"

section \<open>Notions used to state the properties of the rule manager\<close>

text \<open>
  A rule's patterns match a URL when one of them compiles and matches the trimmed URL,
  which is the string \<open>detectPlatform\<close> hands to the engine.
\<close>

definition patternMatches :: "regexp_engine \<Rightarrow> string \<Rightarrow> PlatformRule \<Rightarrow> bool" where
  "patternMatches E url r = list_ex (\<lambda>p. RegExp_i E p (trim url) = Some True) (patterns r)"

definition exampleRule :: "PlatformType \<Rightarrow> string \<Rightarrow> int \<Rightarrow> bool \<Rightarrow> PlatformRule" where
  "exampleRule pf p pr en =
     \<lparr>platform = pf, patterns = [esc p], contentType = article, metadataExtractor = None,
      priority = pr, enabled = en\<rparr>"

section \<open>Detection results (src/types/index.ts)\<close>

text \<open>
  Every field of \<open>PlatformMetadata\<close> is optional. \<open>wordCount\<close> is not declared by
  the interface but is read by the classifier, so the model carries it. \<open>rawData\<close>
  is an open bag (\<open>Record<string, any>\<close>); the model keeps its string entries.
  The field \<open>description\<close> is written \<open>m_description\<close>.
\<close>

record PlatformMetadata =
  platformId :: "string option"
  title :: "string option"
  m_description :: "string option"
  thumbnail :: "string option"
  duration :: "rat option"
  author :: "string option"
  publishedAt :: "string option"
  viewCount :: "int option"
  likeCount :: "int option"
  commentCount :: "int option"
  tags :: "string list option"
  language :: "string option"
  isLive :: "bool option"
  isPremium :: "bool option"
  wordCount :: "int option"
  rawData :: "(string \<times> string) list option"

definition emptyMetadata :: PlatformMetadata where
  "emptyMetadata =
     \<lparr>platformId = None, title = None, m_description = None, thumbnail = None,
      duration = None, author = None, publishedAt = None, viewCount = None,
      likeCount = None, commentCount = None, tags = None, language = None,
      isLive = None, isPremium = None, wordCount = None, rawData = None\<rparr>"

record PlatformDetectionResult =
  r_platform :: PlatformType
  r_contentType :: ContentType
  r_confidence :: rat
  r_matchedPattern :: "string option"
  r_metadata :: "PlatformMetadata option"
  r_processingStrategy :: "ProcessingStrategy option"
  r_error :: "string option"
  r_warnings :: "string list option"

section \<open>Cache manager (src/unnamed/part\_007)\<close>

text \<open>
  The cache is a JavaScript \<open>Map\<close>, which keeps its entries in insertion order: an
  association list with distinct keys, where \<open>Map.set\<close> overwrites in place or
  appends (\<open>AList.update\<close>) and \<open>Map.delete\<close> removes (\<open>AList.delete\<close>).
  Times are milliseconds, as integers; every function that reads \<open>Date.now()\<close>
  takes the time as the argument \<open>now\<close>. The stored and the returned result are
  shallow copies of a record of values, that is, the value itself.
\<close>

record CacheItem =
  result :: PlatformDetectionResult
  timestamp :: int
  expiresAt :: int
  accessCount :: nat

record CacheManager =
  cache :: "(string \<times> CacheItem) list"
  hits :: nat
  misses :: nat
  lastCleanup :: int
  cfg_enabled :: bool
  cfg_duration :: int
  cfg_maxSize :: int
  cfg_cleanupInterval :: int

text \<open>The constructor; the cleanup interval defaults to five minutes.\<close>

definition newCacheManager :: "bool \<Rightarrow> int \<Rightarrow> int \<Rightarrow> int option \<Rightarrow> int \<Rightarrow> CacheManager" where
  "newCacheManager en dur maxSize interval now =
     \<lparr>cache = [], hits = 0, misses = 0, lastCleanup = now,
      cfg_enabled = en, cfg_duration = dur, cfg_maxSize = maxSize,
      cfg_cleanupInterval = (case interval of Some i \<Rightarrow> i | None \<Rightarrow> 5 * 60 * 1000)\<rparr>"

definition cacheGet ::
  "string \<Rightarrow> int \<Rightarrow> CacheManager \<Rightarrow> PlatformDetectionResult option \<times> CacheManager" where
  "cacheGet key now c =
     (if \<not> cfg_enabled c then (None, c\<lparr>misses := misses c + 1\<rparr>)
      else (case map_of (cache c) key of
              None \<Rightarrow> (None, c\<lparr>misses := misses c + 1\<rparr>)
            | Some item \<Rightarrow>
                if now > expiresAt item
                then (None, c\<lparr>cache := AList.delete key (cache c), misses := misses c + 1\<rparr>)
                else (Some (result item),
                      c\<lparr>cache := AList.update key (item\<lparr>accessCount := accessCount item + 1\<rparr>)
                                   (cache c),
                        hits := hits c + 1\<rparr>)))"

text \<open>
  \<open>evictOldestItems(count)\<close>: a cache of at most \<open>count\<close> entries is cleared.
  Otherwise the entries are sorted by creation time (a stable sort) and the first
  \<open>count\<close> of them are deleted, except that \<open>if (entry && entry[0])\<close> passes over an
  entry whose key is the empty string. The number returned is the number deleted.
\<close>

definition evictOldestItems :: "nat \<Rightarrow> CacheManager \<Rightarrow> nat \<times> CacheManager" where
  "evictOldestItems count c =
     (if length (cache c) \<le> count then (length (cache c), c\<lparr>cache := []\<rparr>)
      else
        (let entries = sort_key (\<lambda>e. timestamp (snd e)) (cache c);
             removed = filter (\<lambda>e. fst e \<noteq> []) (take count entries)
         in (length removed, c\<lparr>cache := fold (\<lambda>e m. AList.delete (fst e) m) removed (cache c)\<rparr>)))"

text \<open>\<open>evictLeastUsed(count)\<close>: the same, sorted by access count.\<close>

definition evictLeastUsed :: "nat \<Rightarrow> CacheManager \<Rightarrow> nat \<times> CacheManager" where
  "evictLeastUsed count c =
     (if length (cache c) \<le> count then (length (cache c), c\<lparr>cache := []\<rparr>)
      else
        (let entries = sort_key (\<lambda>e. accessCount (snd e)) (cache c);
             removed = filter (\<lambda>e. fst e \<noteq> []) (take count entries)
         in (length removed, c\<lparr>cache := fold (\<lambda>e m. AList.delete (fst e) m) removed (cache c)\<rparr>)))"

text \<open>
  \<open>set(key, result, duration?)\<close>. \<open>duration || this.config.duration\<close>: a duration that
  is absent or zero gives the configured one.
\<close>

definition cacheSet ::
  "string \<Rightarrow> PlatformDetectionResult \<Rightarrow> int option \<Rightarrow> int \<Rightarrow> CacheManager \<Rightarrow> CacheManager" where
  "cacheSet key res dur now c =
     (if \<not> cfg_enabled c then c
      else
        (let c1 = (if int (length (cache c)) \<ge> cfg_maxSize c
                   then snd (evictOldestItems 10 c) else c);
             cacheDuration = (case dur of
                                Some d \<Rightarrow> if d \<noteq> 0 then d else cfg_duration c
                              | None \<Rightarrow> cfg_duration c);
             item = \<lparr>result = res, timestamp = now, expiresAt = now + cacheDuration,
                     accessCount = 0\<rparr>
         in c1\<lparr>cache := AList.update key item (cache c1)\<rparr>))"

definition cacheDelete :: "string \<Rightarrow> CacheManager \<Rightarrow> bool \<times> CacheManager" where
  "cacheDelete key c =
     (map_of (cache c) key \<noteq> None, c\<lparr>cache := AList.delete key (cache c)\<rparr>)"

definition cacheClear :: "int \<Rightarrow> CacheManager \<Rightarrow> CacheManager" where
  "cacheClear now c = c\<lparr>cache := [], hits := 0, misses := 0, lastCleanup := now\<rparr>"

definition cacheHas :: "string \<Rightarrow> int \<Rightarrow> CacheManager \<Rightarrow> bool" where
  "cacheHas key now c =
     (if \<not> cfg_enabled c then False
      else (case map_of (cache c) key of
              None \<Rightarrow> False
            | Some item \<Rightarrow> now \<le> expiresAt item))"

definition cacheRefresh :: "string \<Rightarrow> int option \<Rightarrow> int \<Rightarrow> CacheManager \<Rightarrow> bool \<times> CacheManager" where
  "cacheRefresh key dur now c =
     (case map_of (cache c) key of
        None \<Rightarrow> (False, c)
      | Some item \<Rightarrow>
          (let newDuration = (case dur of
                                Some d \<Rightarrow> if d \<noteq> 0 then d else cfg_duration c
                              | None \<Rightarrow> cfg_duration c)
           in (True, c\<lparr>cache := AList.update key (item\<lparr>expiresAt := now + newDuration\<rparr>)
                                  (cache c)\<rparr>)))"

definition cacheCleanup :: "int \<Rightarrow> CacheManager \<Rightarrow> nat \<times> CacheManager" where
  "cacheCleanup now c =
     (length (filter (\<lambda>e. now > expiresAt (snd e)) (cache c)),
      c\<lparr>cache := filter (\<lambda>e. \<not> now > expiresAt (snd e)) (cache c), lastCleanup := now\<rparr>)"

text \<open>
  The calls that can change a cache, each with the time at which it runs, and a run of
  such calls from left to right.
\<close>

datatype cacheCall =
  Get string
  | Set string PlatformDetectionResult "int option"
  | Delete string
  | Clear
  | Refresh string "int option"
  | Cleanup
  | EvictLeastUsed nat
  | EvictOldestItems nat

fun call :: "cacheCall \<times> int \<Rightarrow> CacheManager \<Rightarrow> CacheManager" where
  "call (Get k, now) c = snd (cacheGet k now c)"
| "call (Set k r d, now) c = cacheSet k r d now c"
| "call (Delete k, now) c = snd (cacheDelete k c)"
| "call (Clear, now) c = cacheClear now c"
| "call (Refresh k d, now) c = snd (cacheRefresh k d now c)"
| "call (Cleanup, now) c = snd (cacheCleanup now c)"
| "call (EvictLeastUsed n, now) c = snd (evictLeastUsed n c)"
| "call (EvictOldestItems n, now) c = snd (evictOldestItems n c)"

definition calls :: "(cacheCall \<times> int) list \<Rightarrow> CacheManager \<Rightarrow> CacheManager" where
  "calls cs c = fold call cs c"

definition sampleResult :: "PlatformType \<Rightarrow> PlatformDetectionResult" where
  "sampleResult pf =
     \<lparr>r_platform = pf, r_contentType = generic_content, r_confidence = 9 / 10,
      r_matchedPattern = None, r_metadata = None, r_processingStrategy = Some clip,
      r_error = None, r_warnings = None\<rparr>"

section \<open>Notions used to state the properties of the cache\<close>

text \<open>
  The invariant of the cache: the bound is at least one, the cache is within it, and
  the keys are distinct.
\<close>

definition cacheInv :: "CacheManager \<Rightarrow> bool" where
  "cacheInv c = (1 \<le> cfg_maxSize c \<and> int (length (cache c)) \<le> cfg_maxSize c
                 \<and> distinct (map fst (cache c)))"

text \<open>
  The \<open>n\<close> entries that \<open>evictOldestItems\<close> looks at, the entry that \<open>set\<close>
  stores, and caches filled by \<open>n\<close> calls of \<open>set\<close> at the times 0, 1, ...
\<close>

definition oldest :: "nat \<Rightarrow> CacheManager \<Rightarrow> (string \<times> CacheItem) list" where
  "oldest n c = take n (sort_key (\<lambda>e. timestamp (snd e)) (cache c))"

definition newItem :: "CacheManager \<Rightarrow> PlatformDetectionResult \<Rightarrow> int option \<Rightarrow> int \<Rightarrow> CacheItem" where
  "newItem c r d now =
     \<lparr>result = r, timestamp = now,
      expiresAt = now + (case d of Some x \<Rightarrow> if x \<noteq> 0 then x else cfg_duration c
                                 | None \<Rightarrow> cfg_duration c),
      accessCount = 0\<rparr>"

definition filled :: "nat \<Rightarrow> int \<Rightarrow> CacheManager" where
  "filled n maxSize =
     calls (map (\<lambda>i. (Set (''k'' @ replicate i CHR ''x'') (sampleResult generic) None, int i)) [0 ..< n])
       (newCacheManager True 300000 maxSize None 0)"

definition filledFromEmptyKey :: CacheManager where
  "filledFromEmptyKey =
     calls (map (\<lambda>i. (Set (replicate i CHR ''x'') (sampleResult generic) None, int i)) [0 ..< 11])
       (newCacheManager True 300000 11 None 0)"

section \<open>Thrown values\<close>

text \<open>
  What a \<open>throw\<close> carries, as far as \<open>detect\<close> looks at it: an \<open>Error\<close>
  object with its message, or any other value. A function that can throw returns a
  sum, with the thrown value on the left.
\<close>

datatype exn = Error string | NonError

definition syntaxError :: exn where
  "syntaxError = Error ''Invalid regular expression''"

section \<open>Content type classifier (src/lib/platform-detector/content-analyzer/classifier.ts)\<close>

record ClassifierConfig =
  enableHeuristicRules :: bool
  enableMLClassification :: bool
  confidenceThreshold :: rat

definition defaultClassifierConfig :: ClassifierConfig where
  "defaultClassifierConfig =
     \<lparr>enableHeuristicRules = True, enableMLClassification = False,
      confidenceThreshold = 6 / 10\<rparr>"

text \<open>
  \<open>metadataPatterns?: { title?: string[]; description?: string[] }\<close> is the
  optional pair \<open>cr_metadataPatterns\<close>.
\<close>

record ClassificationRule =
  cr_platform :: PlatformType
  cr_patterns :: "string list option"
  cr_metadataPatterns :: "(string list option \<times> string list option) option"
  cr_contentType :: ContentType
  cr_confidence :: rat
  cr_priority :: int

definition mkClass ::
  "PlatformType \<Rightarrow> string list \<Rightarrow> ContentType \<Rightarrow> rat \<Rightarrow> int \<Rightarrow> ClassificationRule" where
  "mkClass pf ps ct conf pr =
     \<lparr>cr_platform = pf, cr_patterns = Some (map esc ps), cr_metadataPatterns = None,
      cr_contentType = ct, cr_confidence = conf, cr_priority = pr\<rparr>"

definition getDefaultRules :: "ClassificationRule list" where
  "getDefaultRules =
    [mkClass youtube [''youtube~.com/watch'', ''youtu~.be/'', ''youtube~.com/shorts'']
       video (95 / 100) 100,
     mkClass youtube [''youtube~.com/playlist''] video (9 / 10) 90,
     mkClass bilibili [''bilibili~.com/video''] video (95 / 100) 100,
     mkClass bilibili [''bilibili~.com/read''] article (9 / 10) 90,
     mkClass twitter [''twitter~.com/.*/status'', ''x~.com/.*/status''] tweet (95 / 100) 100,
     mkClass medium [''medium~.com''] article (9 / 10) 100,
     mkClass zhihu [''zhihu~.com/question''] discussion (9 / 10) 100,
     mkClass zhihu [''zhuanlan~.zhihu~.com''] article (9 / 10) 90,
     mkClass zhihu [''zhihu~.com/zvideo''] video (9 / 10) 80,
     mkClass github [''github~.com/.*/.*''] code_repository (9 / 10) 100,
     mkClass github [''github~.com/.*/issues'', ''github~.com/.*/pull''] discussion (8 / 10) 90,
     mkClass weibo [''weibo~.com''] tweet (9 / 10) 100,
     mkClass tiktok [''tiktok~.com/.*/video''] video (95 / 100) 100,
     mkClass reddit [''reddit~.com/r/.*/comments''] discussion (9 / 10) 100,
     mkClass stackoverflow [''stackoverflow~.com/questions'', ''stackoverflow~.com/a/'']
       discussion (95 / 100) 100,
     mkClass devto [''dev~.to''] article (9 / 10) 100,
     mkClass hackernews [''news~.ycombinator~.com''] discussion (9 / 10) 100]"

text \<open>
  A loop \<open>for (const pattern of patterns) { if (new RegExp(pattern, 'i').test(s)) ... }\<close>:
  whether some pattern matches, or the SyntaxError of the first pattern that does not
  compile when no earlier pattern matched. Nothing in the classifier catches it.
\<close>

fun testPatterns :: "regexp_engine \<Rightarrow> string list \<Rightarrow> string \<Rightarrow> exn + bool" where
  "testPatterns E [] s = Inr False"
| "testPatterns E (p # ps) s =
     (case RegExp_i E p s of
        None \<Rightarrow> Inl syntaxError
      | Some True \<Rightarrow> Inr True
      | Some False \<Rightarrow> testPatterns E ps s)"

definition rawDataUrl :: "PlatformMetadata \<Rightarrow> string option" where
  "rawDataUrl md = (case rawData md of None \<Rightarrow> None | Some kv \<Rightarrow> map_of kv ''url'')"

text \<open>
  \<open>if (rule.patterns && metadata.rawData?.url)\<close>: the rule has patterns and the URL
  is a non-empty string.
\<close>

definition urlPatternStep ::
  "regexp_engine \<Rightarrow> ClassificationRule \<Rightarrow> PlatformMetadata \<Rightarrow> exn + bool" where
  "urlPatternStep E rule md =
     (case cr_patterns rule of
        None \<Rightarrow> Inr False
      | Some ps \<Rightarrow>
          (case rawDataUrl md of
             None \<Rightarrow> Inr False
           | Some u \<Rightarrow> if u \<noteq> [] then testPatterns E ps u else Inr False))"

text \<open>
  One of the two blocks on \<open>title\<close> and \<open>description\<close>: \<open>None\<close> when the block
  is skipped, otherwise whether one of the patterns matched (\<open>total\<close> goes up by one,
  \<open>matches\<close> by one on a match).
\<close>

definition fieldStep ::
  "regexp_engine \<Rightarrow> string list option \<Rightarrow> string option \<Rightarrow> exn + bool option" where
  "fieldStep E pats field =
     (case pats of
        None \<Rightarrow> Inr None
      | Some ps \<Rightarrow>
          (case field of
             None \<Rightarrow> Inr None
           | Some v \<Rightarrow>
               if v \<noteq> []
               then (case testPatterns E ps v of Inl e \<Rightarrow> Inl e | Inr b \<Rightarrow> Inr (Some b))
               else Inr None))"

definition counted :: "bool option \<Rightarrow> rat" where
  "counted x = (case x of None \<Rightarrow> 0 | Some b \<Rightarrow> 1)"

definition matched :: "bool option \<Rightarrow> rat" where
  "matched x = (case x of Some True \<Rightarrow> 1 | _ \<Rightarrow> 0)"

definition metadataPatternStep ::
  "regexp_engine \<Rightarrow> ClassificationRule \<Rightarrow> PlatformMetadata \<Rightarrow> exn + (ContentType \<times> rat) option" where
  "metadataPatternStep E rule md =
     (case cr_metadataPatterns rule of
        None \<Rightarrow> Inr None
      | Some (titlePatterns, descriptionPatterns) \<Rightarrow>
          (case fieldStep E titlePatterns (title md) of
             Inl e \<Rightarrow> Inl e
           | Inr t \<Rightarrow>
               (case fieldStep E descriptionPatterns (m_description md) of
                  Inl e \<Rightarrow> Inl e
                | Inr d \<Rightarrow>
                    (let total = counted t + counted d; matches = matched t + matched d
                     in if total > 0 \<and> matches / total \<ge> 1 / 2
                        then Inr (Some (cr_contentType rule, cr_confidence rule * (matches / total)))
                        else Inr None))))"

text \<open>
  The body of \<open>for (const rule of platformRules)\<close>. Each of its three parts returns,
  the last one unconditionally, so the loop never reaches a second rule: the rules after
  the first are not looked at.
\<close>

fun platformRulesLoop ::
  "regexp_engine \<Rightarrow> ClassificationRule list \<Rightarrow> PlatformMetadata \<Rightarrow> exn + (ContentType \<times> rat)" where
  "platformRulesLoop E [] md = Inr (generic_content, 1 / 10)"
| "platformRulesLoop E (rule # rest) md =
     (case urlPatternStep E rule md of
        Inl e \<Rightarrow> Inl e
      | Inr True \<Rightarrow> Inr (cr_contentType rule, cr_confidence rule)
      | Inr False \<Rightarrow>
          (case metadataPatternStep E rule md of
             Inl e \<Rightarrow> Inl e
           | Inr (Some res) \<Rightarrow> Inr res
           | Inr None \<Rightarrow> Inr (cr_contentType rule, cr_confidence rule * (8 / 10))))"

definition applyPlatformRules ::
  "regexp_engine \<Rightarrow> ClassificationRule list \<Rightarrow> PlatformType \<Rightarrow> PlatformMetadata
   \<Rightarrow> exn + (ContentType \<times> rat)" where
  "applyPlatformRules E rules pf md =
     platformRulesLoop E (filter (\<lambda>rule. cr_platform rule = pf) rules) md"

definition titleIncludes :: "PlatformMetadata \<Rightarrow> string \<Rightarrow> bool" where
  "titleIncludes md w =
     (case title md of None \<Rightarrow> False | Some t \<Rightarrow> includesStr (toLowerCase t) w)"

definition descriptionIncludes :: "PlatformMetadata \<Rightarrow> string \<Rightarrow> bool" where
  "descriptionIncludes md w =
     (case m_description md of None \<Rightarrow> False | Some t \<Rightarrow> includesStr (toLowerCase t) w)"

definition heuristics ::
  "((PlatformType \<Rightarrow> PlatformMetadata \<Rightarrow> bool) \<times> ContentType \<times> rat) list" where
  "heuristics =
    [(\<lambda>pf md. case duration md of None \<Rightarrow> False | Some d \<Rightarrow> d > 0, video, 9 / 10),
     (\<lambda>pf md. titleIncludes md ''video'' \<or> titleIncludes md ''watch'', video, 7 / 10),
     (\<lambda>pf md. case wordCount md of None \<Rightarrow> False | Some n \<Rightarrow> n > 500, article, 8 / 10),
     (\<lambda>pf md. titleIncludes md ''blog'' \<or> titleIncludes md ''article''
                \<or> titleIncludes md ''post'', article, 7 / 10),
     (\<lambda>pf md. titleIncludes md ''github'' \<or> titleIncludes md ''repo''
                \<or> titleIncludes md ''code'', code_repository, 8 / 10),
     (\<lambda>pf md. descriptionIncludes md ''api'' \<or> descriptionIncludes md ''documentation'',
        documentation, 7 / 10),
     (\<lambda>pf md. titleIncludes md ''discussion'' \<or> titleIncludes md ''question''
                \<or> titleIncludes md ''answer'', discussion, 7 / 10),
     (\<lambda>pf md. titleIncludes md ''gallery'' \<or> titleIncludes md ''photo''
                \<or> titleIncludes md ''image'', image_gallery, 7 / 10)]"

fun heuristicsLoop ::
  "((PlatformType \<Rightarrow> PlatformMetadata \<Rightarrow> bool) \<times> ContentType \<times> rat) list
   \<Rightarrow> PlatformType \<Rightarrow> PlatformMetadata \<Rightarrow> ContentType \<times> rat" where
  "heuristicsLoop [] pf md = (generic_content, 3 / 10)"
| "heuristicsLoop ((test, ct, conf) # hs) pf md =
     (if test pf md then (ct, conf) else heuristicsLoop hs pf md)"

definition applyHeuristicRules :: "PlatformType \<Rightarrow> PlatformMetadata \<Rightarrow> ContentType \<times> rat" where
  "applyHeuristicRules pf md = heuristicsLoop heuristics pf md"

definition classify ::
  "regexp_engine \<Rightarrow> ClassifierConfig \<Rightarrow> ClassificationRule list \<Rightarrow> PlatformType
   \<Rightarrow> PlatformMetadata \<Rightarrow> exn + ContentType" where
  "classify E cfg rules pf md =
     (case applyPlatformRules E rules pf md of
        Inl e \<Rightarrow> Inl e
      | Inr (ct, conf) \<Rightarrow>
          if conf \<ge> confidenceThreshold cfg then Inr ct
          else if enableHeuristicRules cfg
               then (case applyHeuristicRules pf md of
                       (ct', conf') \<Rightarrow>
                         if conf' \<ge> confidenceThreshold cfg then Inr ct'
                         else Inr generic_content)
               else Inr generic_content)"

text \<open>The classifier's own \<open>addRule\<close>: append, then a stable sort by descending priority.\<close>

definition addClassificationRule ::
  "ClassificationRule list \<Rightarrow> ClassificationRule \<Rightarrow> ClassificationRule list" where
  "addClassificationRule rules rule = sort_key (\<lambda>r. - cr_priority r) (rules @ [rule])"

section \<open>Strategy decider (src/unnamed/part\_006)\<close>

text \<open>
  The decision context. Its \<open>metadata\<close> is an open bag; the model keeps the five
  entries that the context rules read, with the types the rules expect.
\<close>

record ContextMetadata =
  cm_duration :: "rat option"
  cm_wordCount :: "int option"
  cm_language :: "string option"
  cm_commentCount :: "int option"
  cm_title :: "string option"

record SimilarDecision =
  sd_contentType :: ContentType
  sd_strategy :: ProcessingStrategy
  sd_timestamp :: int
  sd_satisfaction :: "rat option"

record DecisionContext =
  ctx_url :: "string option"
  ctx_platform :: "string option"
  ctx_metadata :: "ContextMetadata option"
  ctx_userHistory :: "SimilarDecision list option"
  ctx_currentQueueSize :: "int option"
  ctx_availableStorage :: "int option"

definition emptyContext :: DecisionContext where
  "emptyContext =
     \<lparr>ctx_url = None, ctx_platform = None, ctx_metadata = None, ctx_userHistory = None,
      ctx_currentQueueSize = None, ctx_availableStorage = None\<rparr>"

text \<open>
  The configuration after the constructor has merged it. \<open>defaultStrategies\<close> is a
  \<open>Partial<Record<ContentType, ProcessingStrategy>>\<close>. The field \<open>userPreferences\<close>
  is stored and never read, and is left out.
\<close>

record StrategyDeciderConfig =
  defaultStrategies :: "ContentType \<Rightarrow> ProcessingStrategy option"
  enableContextAware :: bool
  enableLearning :: bool

definition getDefaultStrategies :: "ContentType \<Rightarrow> ProcessingStrategy" where
  "getDefaultStrategies ct =
     (case ct of
        article \<Rightarrow> clip
      | video \<Rightarrow> watch_later
      | tweet \<Rightarrow> bookmark
      | code_repository \<Rightarrow> bookmark
      | documentation \<Rightarrow> clip
      | discussion \<Rightarrow> bookmark
      | image_gallery \<Rightarrow> bookmark
      | generic_content \<Rightarrow> clip)"

text \<open>
  The constructor: the given strategies override the built-in table entry by entry;
  the two flags default to context awareness on and learning off.
\<close>

definition newStrategyDecider ::
  "(ContentType \<Rightarrow> ProcessingStrategy option) \<Rightarrow> bool option \<Rightarrow> bool option
   \<Rightarrow> StrategyDeciderConfig" where
  "newStrategyDecider given contextAware learning =
     \<lparr>defaultStrategies =
        (\<lambda>ct. case given ct of Some s \<Rightarrow> Some s | None \<Rightarrow> Some (getDefaultStrategies ct)),
      enableContextAware = (case contextAware of Some b \<Rightarrow> b | None \<Rightarrow> True),
      enableLearning = (case learning of Some b \<Rightarrow> b | None \<Rightarrow> False)\<rparr>"

text \<open>A context rule; its explanatory text \<open>reason\<close> is left out.\<close>

record ContextRule =
  cx_condition :: "ContentType \<Rightarrow> DecisionContext \<Rightarrow> bool"
  cx_strategy :: ProcessingStrategy
  cx_matchQuality :: "ContentType \<Rightarrow> DecisionContext \<Rightarrow> rat"

text \<open>
  Readers of the context with the truthiness of the source: \<open>x && x < n\<close> needs a
  number that is present and not zero.
\<close>

definition metaDuration :: "DecisionContext \<Rightarrow> rat option" where
  "metaDuration ctx = (case ctx_metadata ctx of None \<Rightarrow> None | Some m \<Rightarrow> cm_duration m)"

definition metaWordCount :: "DecisionContext \<Rightarrow> int option" where
  "metaWordCount ctx = (case ctx_metadata ctx of None \<Rightarrow> None | Some m \<Rightarrow> cm_wordCount m)"

definition metaLanguage :: "DecisionContext \<Rightarrow> string option" where
  "metaLanguage ctx = (case ctx_metadata ctx of None \<Rightarrow> None | Some m \<Rightarrow> cm_language m)"

definition metaCommentCount :: "DecisionContext \<Rightarrow> int option" where
  "metaCommentCount ctx =
     (case ctx_metadata ctx of None \<Rightarrow> None | Some m \<Rightarrow> cm_commentCount m)"

definition metaTitleIncludes :: "DecisionContext \<Rightarrow> string \<Rightarrow> bool" where
  "metaTitleIncludes ctx w =
     (case ctx_metadata ctx of
        None \<Rightarrow> False
      | Some m \<Rightarrow> (case cm_title m of None \<Rightarrow> False | Some t \<Rightarrow> includesStr (toLowerCase t) w))"

definition urlIncludes :: "DecisionContext \<Rightarrow> string \<Rightarrow> bool" where
  "urlIncludes ctx w = (case ctx_url ctx of None \<Rightarrow> False | Some u \<Rightarrow> includesStr u w)"

definition getContextRules :: "ContextRule list" where
  "getContextRules =
    [\<lparr>cx_condition = (\<lambda>ty ctx. ty = video \<and>
          (case metaDuration ctx of None \<Rightarrow> False | Some d \<Rightarrow> d \<noteq> 0 \<and> d < 300)),
      cx_strategy = clip,
      cx_matchQuality = (\<lambda>ty ctx.
          (let d = (case metaDuration ctx of None \<Rightarrow> 0 | Some d \<Rightarrow> d)
           in if d < 60 then 9 / 10 else 7 / 10))\<rparr>,
     \<lparr>cx_condition = (\<lambda>ty ctx. ty = video \<and>
          (case ctx_currentQueueSize ctx of None \<Rightarrow> False | Some n \<Rightarrow> n < 5)),
      cx_strategy = watch_later,
      cx_matchQuality = (\<lambda>ty ctx. 8 / 10)\<rparr>,
     \<lparr>cx_condition = (\<lambda>ty ctx. ty = article \<and>
          (case metaWordCount ctx of None \<Rightarrow> False | Some n \<Rightarrow> n \<noteq> 0 \<and> n > 5000)),
      cx_strategy = watch_later,
      cx_matchQuality = (\<lambda>ty ctx.
          (let n = (case metaWordCount ctx of None \<Rightarrow> 0 | Some n \<Rightarrow> n)
           in if n > 10000 then 9 / 10 else 7 / 10))\<rparr>,
     \<lparr>cx_condition = (\<lambda>ty ctx. ty = article \<and>
          (case ctx_availableStorage ctx of None \<Rightarrow> False | Some n \<Rightarrow> n < 50 * 1024 * 1024)),
      cx_strategy = bookmark,
      cx_matchQuality = (\<lambda>ty ctx. 9 / 10)\<rparr>,
     \<lparr>cx_condition = (\<lambda>ty ctx. (ty = code_repository \<or> ty = documentation) \<and>
          metaLanguage ctx = Some ''zh''),
      cx_strategy = clip,
      cx_matchQuality = (\<lambda>ty ctx. 8 / 10)\<rparr>,
     \<lparr>cx_condition = (\<lambda>ty ctx. ty = discussion \<and>
          (case metaCommentCount ctx of None \<Rightarrow> False | Some n \<Rightarrow> n \<noteq> 0 \<and> n > 100)),
      cx_strategy = bookmark,
      cx_matchQuality = (\<lambda>ty ctx.
          (let n = (case metaCommentCount ctx of None \<Rightarrow> 0 | Some n \<Rightarrow> n)
           in if n > 500 then 9 / 10 else 7 / 10))\<rparr>,
     \<lparr>cx_condition = (\<lambda>ty ctx. urlIncludes ctx ''tutorial'' \<or> urlIncludes ctx ''guide''
          \<or> metaTitleIncludes ctx ''tutorial''),
      cx_strategy = clip,
      cx_matchQuality = (\<lambda>ty ctx. 8 / 10)\<rparr>,
     \<lparr>cx_condition = (\<lambda>ty ctx. urlIncludes ctx ''news'' \<or> metaTitleIncludes ctx ''news''),
      cx_strategy = bookmark,
      cx_matchQuality = (\<lambda>ty ctx. 7 / 10)\<rparr>]"

text \<open>
  The decision that \<open>decide\<close> reads. The fields \<open>reasoning\<close> and \<open>alternatives\<close>
  explain a decision and are read by nothing; they are left out, and with them
  \<open>applyLearning\<close>, whose result only ever becomes an alternative.
\<close>

record StrategyDecision =
  strategy :: ProcessingStrategy
  confidence :: rat

text \<open>
  The loop of \<open>applyContextRules\<close>: a matching rule replaces the best match so far
  when there is none or when its quality is strictly higher.
\<close>

fun bestMatchLoop ::
  "ContextRule list \<Rightarrow> ContentType \<Rightarrow> DecisionContext \<Rightarrow> StrategyDecision option
   \<Rightarrow> StrategyDecision option" where
  "bestMatchLoop [] ty ctx best = best"
| "bestMatchLoop (rule # rules) ty ctx best =
     (if cx_condition rule ty ctx
      then (let q = cx_matchQuality rule ty ctx
            in if (case best of None \<Rightarrow> True | Some b \<Rightarrow> q > confidence b)
               then bestMatchLoop rules ty ctx (Some \<lparr>strategy = cx_strategy rule, confidence = q\<rparr>)
               else bestMatchLoop rules ty ctx best)
      else bestMatchLoop rules ty ctx best)"

definition defaultStrategyOf :: "StrategyDeciderConfig \<Rightarrow> ContentType \<Rightarrow> ProcessingStrategy" where
  "defaultStrategyOf cfg ty = (case defaultStrategies cfg ty of Some s \<Rightarrow> s | None \<Rightarrow> clip)"

definition applyContextRules ::
  "StrategyDeciderConfig \<Rightarrow> ContentType \<Rightarrow> DecisionContext \<Rightarrow> StrategyDecision" where
  "applyContextRules cfg ty ctx =
     (case bestMatchLoop getContextRules ty ctx None of
        Some best \<Rightarrow> best
      | None \<Rightarrow> \<lparr>strategy = defaultStrategyOf cfg ty, confidence = 7 / 10\<rparr>)"

text \<open>The decision history, kept only when learning is enabled, and cut back to the last 500
  entries when it grows beyond 1000.\<close>

record DecisionRecord =
  dr_contentType :: ContentType
  dr_strategy :: ProcessingStrategy
  dr_context :: DecisionContext
  dr_timestamp :: int

definition recordDecision ::
  "StrategyDeciderConfig \<Rightarrow> ContentType \<Rightarrow> ProcessingStrategy \<Rightarrow> DecisionContext \<Rightarrow> int
   \<Rightarrow> DecisionRecord list \<Rightarrow> DecisionRecord list" where
  "recordDecision cfg ty s ctx now history =
     (if \<not> enableLearning cfg then history
      else
        (let h = history @ [\<lparr>dr_contentType = ty, dr_strategy = s, dr_context = ctx,
                              dr_timestamp = now\<rparr>]
         in if length h > 1000 then drop (length h - 500) h else h))"

definition decideWithDetails ::
  "StrategyDeciderConfig \<Rightarrow> ContentType \<Rightarrow> DecisionContext \<Rightarrow> int \<Rightarrow> DecisionRecord list
   \<Rightarrow> StrategyDecision \<times> DecisionRecord list" where
  "decideWithDetails cfg ty ctx now history =
     (let defaultStrategy = defaultStrategyOf cfg ty;
          unchanged = \<lparr>strategy = defaultStrategy, confidence = 8 / 10\<rparr>;
          final =
            (if enableContextAware cfg
             then (let contextResult = applyContextRules cfg ty ctx
                   in if strategy contextResult \<noteq> defaultStrategy then contextResult
                      else unchanged)
             else unchanged)
      in (final, recordDecision cfg ty (strategy final) ctx now history))"

definition decide ::
  "StrategyDeciderConfig \<Rightarrow> ContentType \<Rightarrow> DecisionContext \<Rightarrow> int \<Rightarrow> DecisionRecord list
   \<Rightarrow> ProcessingStrategy \<times> DecisionRecord list" where
  "decide cfg ty ctx now history =
     (case decideWithDetails cfg ty ctx now history of (d, h) \<Rightarrow> (strategy d, h))"

section \<open>Inputs used to state the properties of the classifier\<close>

text \<open>The metadata of a bilibili column article, with its URL in the raw data.\<close>

definition bilibiliColumn :: PlatformMetadata where
  "bilibiliColumn = emptyMetadata\<lparr>rawData := Some [(''url'', ''https://www.bilibili.com/read/cv123'')]\<rparr>"

section \<open>The URL class of the platform\<close>

text \<open>
  \<open>URL\<close> and \<open>URLSearchParams\<close> are built-ins (the WHATWG URL standard), not code
  of the repository. \<open>normalizeUrl\<close> takes them as the parameter \<open>U\<close>, over any
  type \<open>'u\<close> of URL objects: the constructor (\<open>None\<close> when it throws), the getters
  and setters that \<open>normalizeUrl\<close> calls, and the parsing and serialising of the
  query as a list of name and value pairs.
\<close>

record 'u url_api =
  URL_new :: "string \<Rightarrow> 'u option"
  URL_set_hash :: "string \<Rightarrow> 'u \<Rightarrow> 'u"
  URL_get_protocol :: "'u \<Rightarrow> string"
  URL_set_protocol :: "string \<Rightarrow> 'u \<Rightarrow> 'u"
  URL_get_hostname :: "'u \<Rightarrow> string"
  URL_set_hostname :: "string \<Rightarrow> 'u \<Rightarrow> 'u"
  URL_get_search :: "'u \<Rightarrow> string"
  URL_set_search :: "string \<Rightarrow> 'u \<Rightarrow> 'u"
  URL_toString :: "'u \<Rightarrow> string"
  URLSearchParams_new :: "string \<Rightarrow> (string \<times> string) list"
  URLSearchParams_toString :: "(string \<times> string) list \<Rightarrow> string"

section \<open>The detection service (src/lib/platform-detector/index.ts)\<close>

definition trackingParams :: "string list" where
  "trackingParams =
     [''utm_source'', ''utm_medium'', ''utm_campaign'', ''utm_term'', ''utm_content'',
      ''fbclid'', ''gclid'']"

text \<open>\<open>params.delete(name)\<close> removes every pair of that name.\<close>

definition paramsDelete :: "string \<Rightarrow> (string \<times> string) list \<Rightarrow> (string \<times> string) list" where
  "paramsDelete name ps = filter (\<lambda>p. fst p \<noteq> name) ps"

text \<open>
  The statements of the \<open>try\<close> block that follow the constructor, one function
  each: the protocol and the host name are set to their lower case, the tracking
  parameters are deleted from the query and the query is written back. \<open>cleaned\<close> is
  the URL object after all of them, the first being \<open>urlObj.hash = ''\<close>.
\<close>

definition lowerProtocol :: "'u url_api \<Rightarrow> 'u \<Rightarrow> 'u" where
  "lowerProtocol U urlObj = URL_set_protocol U (toLowerCase (URL_get_protocol U urlObj)) urlObj"

definition lowerHostname :: "'u url_api \<Rightarrow> 'u \<Rightarrow> 'u" where
  "lowerHostname U urlObj = URL_set_hostname U (toLowerCase (URL_get_hostname U urlObj)) urlObj"

definition stripTracking :: "'u url_api \<Rightarrow> 'u \<Rightarrow> 'u" where
  "stripTracking U urlObj =
     URL_set_search U
       (URLSearchParams_toString U
          (fold paramsDelete trackingParams (URLSearchParams_new U (URL_get_search U urlObj))))
       urlObj"

definition cleaned :: "'u url_api \<Rightarrow> 'u \<Rightarrow> 'u" where
  "cleaned U urlObj =
     stripTracking U (lowerHostname U (lowerProtocol U (URL_set_hash U [] urlObj)))"

text \<open>
  \<open>normalizeUrl\<close>: only the constructor can throw inside the \<open>try\<close>; the
  \<open>catch\<close> returns the trimmed input.
\<close>

definition normalizeUrl :: "'u url_api \<Rightarrow> string \<Rightarrow> string" where
  "normalizeUrl U url =
     (case URL_new U url of
        None \<Rightarrow> trim url
      | Some urlObj \<Rightarrow> URL_toString U (cleaned U urlObj))"

text \<open>
  The five collaborators of the service, as \<open>detect\<close> sees them: each call runs
  on a state \<open>'s\<close>, may change it, and either returns or throws.
\<close>

record 's components =
  c_cacheGet :: "string \<Rightarrow> 's \<Rightarrow> (exn + PlatformDetectionResult option) \<times> 's"
  c_detectPlatform :: "string \<Rightarrow> 's \<Rightarrow> (exn + PlatformDetectionIntermediate) \<times> 's"
  c_extract :: "string \<Rightarrow> PlatformType \<Rightarrow> 's \<Rightarrow> (exn + PlatformMetadata) \<times> 's"
  c_classify :: "PlatformType \<Rightarrow> PlatformMetadata \<Rightarrow> 's \<Rightarrow> (exn + ContentType) \<times> 's"
  c_decide :: "ContentType \<Rightarrow> 's \<Rightarrow> (exn + ProcessingStrategy) \<times> 's"
  c_cacheSet :: "string \<Rightarrow> PlatformDetectionResult \<Rightarrow> 's \<Rightarrow> (exn + unit) \<times> 's"

text \<open>
  Step 4 of \<open>detect\<close>, with its own \<open>try\<close>: a throw of the extractor is logged
  and the detection goes on without metadata.
\<close>

definition extractStep ::
  "'s components \<Rightarrow> bool \<Rightarrow> string \<Rightarrow> PlatformType \<Rightarrow> 's \<Rightarrow> PlatformMetadata option \<times> 's" where
  "extractStep C enableMetadataExtraction normalizedUrl pf s =
     (if enableMetadataExtraction \<and> pf \<noteq> generic
      then (case c_extract C normalizedUrl pf s of
              (Inl e, s') \<Rightarrow> (None, s')
            | (Inr m, s') \<Rightarrow> (Some m, s'))
      else (None, s))"

definition buildResult ::
  "PlatformDetectionIntermediate \<Rightarrow> ContentType \<Rightarrow> PlatformMetadata option
   \<Rightarrow> ProcessingStrategy \<Rightarrow> PlatformDetectionResult" where
  "buildResult platformResult ct metadata processingStrategy =
     \<lparr>r_platform = d_platform platformResult, r_contentType = ct,
      r_confidence = d_confidence platformResult,
      r_matchedPattern =
        (case d_matchedPattern platformResult of
           None \<Rightarrow> None
         | Some p \<Rightarrow> if p \<noteq> [] then Some p else None),
      r_metadata = metadata, r_processingStrategy = Some processingStrategy,
      r_error = None, r_warnings = None\<rparr>"

text \<open>
  The body of the outer \<open>try\<close>, from the cache lookup on: the result, or the value
  thrown.
\<close>

definition detectFrom ::
  "'s components \<Rightarrow> bool \<Rightarrow> string \<Rightarrow> 's \<Rightarrow> (exn + PlatformDetectionResult) \<times> 's" where
  "detectFrom C enableMetadataExtraction normalizedUrl s =
     (case c_cacheGet C normalizedUrl s of
        (Inl e, s1) \<Rightarrow> (Inl e, s1)
      | (Inr (Some cachedResult), s1) \<Rightarrow> (Inr cachedResult, s1)
      | (Inr None, s1) \<Rightarrow>
          (case c_detectPlatform C normalizedUrl s1 of
             (Inl e, s2) \<Rightarrow> (Inl e, s2)
           | (Inr platformResult, s2) \<Rightarrow>
               (case extractStep C enableMetadataExtraction normalizedUrl
                       (d_platform platformResult) s2 of
                  (metadata, s3) \<Rightarrow>
                    (case c_classify C (d_platform platformResult)
                            (case metadata of Some m \<Rightarrow> m | None \<Rightarrow> emptyMetadata) s3 of
                       (Inl e, s4) \<Rightarrow> (Inl e, s4)
                     | (Inr ct, s4) \<Rightarrow>
                         (case c_decide C ct s4 of
                            (Inl e, s5) \<Rightarrow> (Inl e, s5)
                          | (Inr processingStrategy, s5) \<Rightarrow>
                              (case c_cacheSet C normalizedUrl
                                      (buildResult platformResult ct metadata processingStrategy)
                                      s5 of
                                 (Inl e, s6) \<Rightarrow> (Inl e, s6)
                               | (Inr x, s6) \<Rightarrow>
                                   (Inr (buildResult platformResult ct metadata
                                           processingStrategy), s6)))))))"

definition detectTry ::
  "'u url_api \<Rightarrow> 's components \<Rightarrow> bool \<Rightarrow> string \<Rightarrow> 's
   \<Rightarrow> (exn + PlatformDetectionResult) \<times> 's" where
  "detectTry U C enableMetadataExtraction url s =
     detectFrom C enableMetadataExtraction (normalizeUrl U url) s"

text \<open>
  The \<open>catch\<close> of the outer \<open>try\<close>. The message for a thrown value that is not an
  \<open>Error\<close> is a Chinese text in the source (``unknown error'').
\<close>

definition unknownErrorMessage :: string where
  "unknownErrorMessage = ''unknown error''"

definition fallbackResult :: "exn \<Rightarrow> PlatformDetectionResult" where
  "fallbackResult e =
     \<lparr>r_platform = generic, r_contentType = generic_content, r_confidence = 1 / 10,
      r_matchedPattern = None, r_metadata = None, r_processingStrategy = Some clip,
      r_error = Some (case e of Error message \<Rightarrow> message | NonError \<Rightarrow> unknownErrorMessage),
      r_warnings = None\<rparr>"

definition detect ::
  "'u url_api \<Rightarrow> 's components \<Rightarrow> bool \<Rightarrow> string \<Rightarrow> 's \<Rightarrow> PlatformDetectionResult \<times> 's" where
  "detect U C enableMetadataExtraction url s =
     (case detectTry U C enableMetadataExtraction url s of
        (Inl e, s') \<Rightarrow> (fallbackResult e, s')
      | (Inr res, s') \<Rightarrow> (res, s'))"




text \<open>
  The service with the collaborators of the repository. The state holds what the
  collaborators own; the metadata extractor, which fetches pages, is the parameter
  \<open>X\<close>. The clock reads \<open>now\<close> throughout one call.
\<close>

record PlatformDetectorService =
  ruleManager :: "PlatformRule list"
  cacheManager :: CacheManager
  classifierConfig :: ClassifierConfig
  classifierRules :: "ClassificationRule list"
  strategyDecider :: StrategyDeciderConfig
  decisionHistory :: "DecisionRecord list"
  enableMetadataExtraction :: bool

definition serviceComponents ::
  "regexp_engine \<Rightarrow> (string \<Rightarrow> PlatformType \<Rightarrow> exn + PlatformMetadata) \<Rightarrow> int
   \<Rightarrow> PlatformDetectorService components" where
  "serviceComponents E X now =
     \<lparr>c_cacheGet = (\<lambda>key s.
        case cacheGet key now (cacheManager s) of
          (r, cm) \<Rightarrow> (Inr r, s\<lparr>cacheManager := cm\<rparr>)),
      c_detectPlatform = (\<lambda>url s. (Inr (detectPlatform E (ruleManager s) url), s)),
      c_extract = (\<lambda>url pf s. (X url pf, s)),
      c_classify = (\<lambda>pf md s. (classify E (classifierConfig s) (classifierRules s) pf md, s)),
      c_decide = (\<lambda>ct s.
        case decide (strategyDecider s) ct emptyContext now (decisionHistory s) of
          (st, h) \<Rightarrow> (Inr st, s\<lparr>decisionHistory := h\<rparr>)),
      c_cacheSet = (\<lambda>key r s.
        (Inr (), s\<lparr>cacheManager := cacheSet key r None now (cacheManager s)\<rparr>))\<rparr>"

text \<open>
  The constructor with the default configuration: a cache of 1000 entries that live
  five minutes, metadata extraction on, and the default strategies of the user
  preferences, which repeat the built-in table.
\<close>

definition defaultUserStrategies :: "ContentType \<Rightarrow> ProcessingStrategy option" where
  "defaultUserStrategies ct =
     (case ct of
        article \<Rightarrow> Some clip
      | video \<Rightarrow> Some watch_later
      | tweet \<Rightarrow> Some bookmark
      | code_repository \<Rightarrow> Some bookmark
      | documentation \<Rightarrow> Some clip
      | discussion \<Rightarrow> Some bookmark
      | image_gallery \<Rightarrow> Some bookmark
      | generic_content \<Rightarrow> Some clip)"

definition newPlatformDetectorService :: "int \<Rightarrow> PlatformDetectorService" where
  "newPlatformDetectorService now =
     \<lparr>ruleManager = initializeRules [],
      cacheManager = newCacheManager True (5 * 60 * 1000) 1000 None now,
      classifierConfig = defaultClassifierConfig,
      classifierRules = getDefaultRules,
      strategyDecider = newStrategyDecider defaultUserStrategies None None,
      decisionHistory = [],
      enableMetadataExtraction = True\<rparr>"

definition serviceDetect ::
  "'u url_api \<Rightarrow> regexp_engine \<Rightarrow> (string \<Rightarrow> PlatformType \<Rightarrow> exn + PlatformMetadata) \<Rightarrow> int
   \<Rightarrow> string \<Rightarrow> PlatformDetectorService \<Rightarrow> PlatformDetectionResult \<times> PlatformDetectorService" where
  "serviceDetect U E X now url s =
     detect U (serviceComponents E X now) (enableMetadataExtraction s) url s"

section \<open>A model of the URL built-ins\<close>

text \<open>
  For the closed statements the URL class is made concrete, for a fragment of the
  WHATWG URL standard: absolute URLs of the special schemes http, https, ws, wss and
  ftp, written in ASCII, with a host of letters, digits, hyphens and dots whose last
  label starts with a letter, an optional port, and a path and query that need no
  percent-encoding and have no dot segments. On these the model follows the
  standard: leading and trailing C0 controls and spaces are stripped, tabs and
  newlines are removed, the scheme and the host are lower-cased, a default port is
  dropped and an empty path becomes \<open>/\<close>. A string with no scheme fails to parse,
  as in the standard. Every other string is outside the fragment; the model reports
  it as a failure too and says nothing about it. The query is parsed and serialised as
  \<open>application/x-www-form-urlencoded\<close>, byte by byte.
\<close>

record URL =
  u_scheme :: string
  u_host :: string
  u_port :: string
  u_path :: string
  u_query :: "string option"
  u_fragment :: "string option"

definition specialPorts :: "(string \<times> string) list" where
  "specialPorts =
     [(''http'', ''80''), (''https'', ''443''), (''ws'', ''80''), (''wss'', ''443''),
      (''ftp'', ''21'')]"

definition c0OrSpace :: "char \<Rightarrow> bool" where
  "c0OrSpace c = (code c \<le> 32)"

definition tabOrNewline :: "char \<Rightarrow> bool" where
  "tabOrNewline c = (code c = 9 \<or> code c = 10 \<or> code c = 13)"

definition isAlpha :: "char \<Rightarrow> bool" where
  "isAlpha c = (isUpper c \<or> isLower c)"

definition schemeChar :: "char \<Rightarrow> bool" where
  "schemeChar c = (isAlpha c \<or> isDigit c \<or> c \<in> set ''+-.'')"

definition hostChar :: "char \<Rightarrow> bool" where
  "hostChar c = (isAlpha c \<or> isDigit c \<or> c \<in> set ''-.'')"

definition queryChar :: "char \<Rightarrow> bool" where
  "queryChar c = (33 \<le> code c \<and> code c \<le> 126 \<and> c \<notin> set ''#<>'' \<and> code c \<noteq> 34 \<and> code c \<noteq> 39)"

definition pathChar :: "char \<Rightarrow> bool" where
  "pathChar c = (queryChar c \<and> c \<notin> set ''?^`{}'' \<and> code c \<noteq> 92)"

fun splitOn :: "char \<Rightarrow> string \<Rightarrow> string list" where
  "splitOn c [] = [[]]"
| "splitOn c (x # xs) =
     (if x = c then [] # splitOn c xs
      else (case splitOn c xs of [] \<Rightarrow> [[x]] | y # ys \<Rightarrow> (x # y) # ys))"

definition dotSegment :: "string \<Rightarrow> bool" where
  "dotSegment seg =
     (toLowerCase seg \<in> set [''.'', ''..'', ''%2e'', ''.%2e'', ''%2e.'', ''%2e%2e''])"

definition validHost :: "string \<Rightarrow> bool" where
  "validHost h =
     (h \<noteq> [] \<and> list_all hostChar h \<and> \<not> list_ex (\<lambda>l. l = []) (splitOn CHR ''.'' h)
      \<and> isAlpha (hd (last (splitOn CHR ''.'' h))))"

definition normalisePort :: "string \<Rightarrow> string \<Rightarrow> string" where
  "normalisePort scheme digits =
     (let p = dropWhile (\<lambda>c. c = CHR ''0'') digits;
          p' = (if digits \<noteq> [] \<and> p = [] then ''0'' else p)
      in if map_of specialPorts scheme = Some p' then [] else p')"

text \<open>
  The parser, state by state as in the standard, from the last state to the first.
  Each state takes what the states before it have read and the rest of the input.
\<close>

definition fragmentState :: "URL \<Rightarrow> string \<Rightarrow> URL option" where
  "fragmentState u rest =
     (case rest of [] \<Rightarrow> Some u | c # f \<Rightarrow> Some (u\<lparr>u_fragment := Some f\<rparr>))"

definition takeQuery :: "URL \<Rightarrow> string \<Rightarrow> string \<Rightarrow> URL option" where
  "takeQuery u q rest =
     (if list_all queryChar q then fragmentState (u\<lparr>u_query := Some q\<rparr>) rest else None)"

definition queryState :: "URL \<Rightarrow> string \<Rightarrow> URL option" where
  "queryState u rest =
     (case rest of
        [] \<Rightarrow> Some u
      | c # cs \<Rightarrow>
          if c = CHR ''?''
          then takeQuery u (takeWhile (\<lambda>c. c \<noteq> CHR ''#'') cs) (dropWhile (\<lambda>c. c \<noteq> CHR ''#'') cs)
          else fragmentState u rest)"

definition takePath :: "URL \<Rightarrow> string \<Rightarrow> string \<Rightarrow> URL option" where
  "takePath u path rest =
     (if \<not> list_all pathChar path \<or> list_ex dotSegment (splitOn CHR ''/'' path) then None
      else queryState (u\<lparr>u_path := (if path = [] then ''/'' else path)\<rparr>) rest)"

definition pathState :: "URL \<Rightarrow> string \<Rightarrow> URL option" where
  "pathState u rest =
     takePath u (takeWhile (\<lambda>c. c \<notin> set ''?#'') rest) (dropWhile (\<lambda>c. c \<notin> set ''?#'') rest)"

definition takeHost :: "string \<Rightarrow> string \<Rightarrow> string \<Rightarrow> string \<Rightarrow> URL option" where
  "takeHost scheme host portDigits rest =
     (if \<not> validHost host then None
      else if \<not> list_all isDigit portDigits \<or> digitsVal portDigits > 65535 then None
      else pathState \<lparr>u_scheme = scheme, u_host = host,
                       u_port = normalisePort scheme portDigits, u_path = [],
                       u_query = None, u_fragment = None\<rparr> rest)"

definition takeAuthority :: "string \<Rightarrow> string \<Rightarrow> string \<Rightarrow> URL option" where
  "takeAuthority scheme authority rest =
     takeHost scheme (toLowerCase (takeWhile (\<lambda>c. c \<noteq> CHR '':'') authority))
       (drop 1 (dropWhile (\<lambda>c. c \<noteq> CHR '':'') authority)) rest"

definition authorityState :: "string \<Rightarrow> string \<Rightarrow> URL option" where
  "authorityState scheme rest =
     takeAuthority scheme (takeWhile (\<lambda>c. c \<notin> set ''/?#'' \<and> code c \<noteq> 92) rest)
       (dropWhile (\<lambda>c. c \<notin> set ''/?#'' \<and> code c \<noteq> 92) rest)"

definition takeScheme :: "string \<Rightarrow> string \<Rightarrow> URL option" where
  "takeScheme scheme rest =
     (if rest = [] \<or> scheme = [] \<or> \<not> isAlpha (hd scheme) \<or> \<not> list_all schemeChar scheme
      then None
      else if map_of specialPorts scheme = None then None
      else authorityState scheme (dropWhile (\<lambda>c. c = CHR ''/'' \<or> code c = 92) (tl rest)))"

definition schemeState :: "string \<Rightarrow> URL option" where
  "schemeState s =
     takeScheme (toLowerCase (takeWhile (\<lambda>c. c \<noteq> CHR '':'') s))
       (dropWhile (\<lambda>c. c \<noteq> CHR '':'') s)"

definition jsURL_new :: "string \<Rightarrow> URL option" where
  "jsURL_new input =
     schemeState
       (filter (\<lambda>c. \<not> tabOrNewline c)
          (rev (dropWhile c0OrSpace (rev (dropWhile c0OrSpace input)))))"

definition jsURL_toString :: "URL \<Rightarrow> string" where
  "jsURL_toString u =
     u_scheme u @ ''://'' @ u_host u @ (if u_port u = [] then [] else '':'' @ u_port u)
     @ u_path u @ (case u_query u of None \<Rightarrow> [] | Some q \<Rightarrow> ''?'' @ q)
     @ (case u_fragment u of None \<Rightarrow> [] | Some f \<Rightarrow> ''#'' @ f)"

definition jsURL_get_search :: "URL \<Rightarrow> string" where
  "jsURL_get_search u =
     (case u_query u of None \<Rightarrow> [] | Some q \<Rightarrow> if q = [] then [] else ''?'' @ q)"

definition hexDigit :: "int \<Rightarrow> char" where
  "hexDigit n = ''0123456789ABCDEF'' ! nat n"

definition percentEncode :: "char \<Rightarrow> string" where
  "percentEncode c = [CHR ''%'', hexDigit (code c div 16), hexDigit (code c mod 16)]"

definition isHex :: "char \<Rightarrow> bool" where
  "isHex c = (isDigit c \<or> (65 \<le> code c \<and> code c \<le> 70) \<or> (97 \<le> code c \<and> code c \<le> 102))"

definition hexVal :: "char \<Rightarrow> int" where
  "hexVal c = (if isDigit c then code c - 48 else if isUpper c then code c - 55 else code c - 87)"

definition jsURL_set_hash :: "string \<Rightarrow> URL \<Rightarrow> URL" where
  "jsURL_set_hash v u =
     (if v = [] then u\<lparr>u_fragment := None\<rparr>
      else u\<lparr>u_fragment := Some (if hd v = CHR ''#'' then tl v else v)\<rparr>)"

definition jsURL_set_protocol :: "string \<Rightarrow> URL \<Rightarrow> URL" where
  "jsURL_set_protocol v u =
     (let scheme = toLowerCase (takeWhile (\<lambda>c. c \<noteq> CHR '':'') v)
      in case map_of specialPorts scheme of
           None \<Rightarrow> u
         | Some p \<Rightarrow> u\<lparr>u_scheme := scheme, u_port := (if u_port u = p then [] else u_port u)\<rparr>)"

definition jsURL_set_hostname :: "string \<Rightarrow> URL \<Rightarrow> URL" where
  "jsURL_set_hostname v u =
     (let h = toLowerCase (takeWhile (\<lambda>c. c \<notin> set ''/?#:'' \<and> code c \<noteq> 92) v)
      in if validHost h then u\<lparr>u_host := h\<rparr> else u)"

definition jsURL_set_search :: "string \<Rightarrow> URL \<Rightarrow> URL" where
  "jsURL_set_search v u =
     (if v = [] then u\<lparr>u_query := None\<rparr>
      else u\<lparr>u_query :=
             Some (concat (map (\<lambda>c. if queryChar c then [c] else percentEncode c)
                               (if hd v = CHR ''?'' then tl v else v)))\<rparr>)"

fun percentDecode :: "string \<Rightarrow> string" where
  "percentDecode (c # h1 # h2 # cs) =
     (if c = CHR ''%'' \<and> isHex h1 \<and> isHex h2
      then char_of (16 * hexVal h1 + hexVal h2) # percentDecode cs
      else c # percentDecode (h1 # h2 # cs))"
| "percentDecode cs = cs"

definition formDecode :: "string \<Rightarrow> string" where
  "formDecode s = percentDecode (map (\<lambda>c. if c = CHR ''+'' then CHR '' '' else c) s)"

definition formEncode :: "string \<Rightarrow> string" where
  "formEncode s =
     concat (map (\<lambda>c. if isAlpha c \<or> isDigit c \<or> c \<in> set ''*-._'' then [c]
                       else if c = CHR '' '' then ''+'' else percentEncode c) s)"

definition parsePair :: "string \<Rightarrow> string \<times> string" where
  "parsePair piece =
     (formDecode (takeWhile (\<lambda>c. c \<noteq> CHR ''='') piece),
      formDecode (drop 1 (dropWhile (\<lambda>c. c \<noteq> CHR ''='') piece)))"

definition jsURLSearchParams_new :: "string \<Rightarrow> (string \<times> string) list" where
  "jsURLSearchParams_new init =
     map parsePair
       (filter (\<lambda>piece. piece \<noteq> [])
          (splitOn CHR ''&'' (if init \<noteq> [] \<and> hd init = CHR ''?'' then tl init else init)))"

fun joinWith :: "string \<Rightarrow> string list \<Rightarrow> string" where
  "joinWith sep [] = []"
| "joinWith sep [x] = x"
| "joinWith sep (x # y # ys) = x @ sep @ joinWith sep (y # ys)"

definition jsURLSearchParams_toString :: "(string \<times> string) list \<Rightarrow> string" where
  "jsURLSearchParams_toString ps =
     joinWith ''&'' (map (\<lambda>p. formEncode (fst p) @ ''='' @ formEncode (snd p)) ps)"

definition jsURL :: "URL url_api" where
  "jsURL =
     \<lparr>URL_new = jsURL_new,
      URL_set_hash = jsURL_set_hash,
      URL_get_protocol = (\<lambda>u. u_scheme u @ '':''),
      URL_set_protocol = jsURL_set_protocol,
      URL_get_hostname = u_host,
      URL_set_hostname = jsURL_set_hostname,
      URL_get_search = jsURL_get_search,
      URL_set_search = jsURL_set_search,
      URL_toString = jsURL_toString,
      URLSearchParams_new = jsURLSearchParams_new,
      URLSearchParams_toString = jsURLSearchParams_toString\<rparr>"

section \<open>Inputs used to state the properties of the service\<close>

text \<open>
  Two stand-ins for the metadata extractor, one that throws and one that returns a
  title only; collaborators whose classifier throws; and the inputs of the closed
  statements.
\<close>

definition throwingExtractor :: "string \<Rightarrow> PlatformType \<Rightarrow> exn + PlatformMetadata" where
  "throwingExtractor url pf = Inl (Error ''fetch failed'')"






section \<open>Notions used to state the properties of the service\<close>

text \<open>
  The patterns of a classification rule, those for the URL and those for the title and
  the description, and the rule lists all of whose patterns the engine compiles.
\<close>

definition patternsOf :: "ClassificationRule \<Rightarrow> string list" where
  "patternsOf rule =
     (case cr_patterns rule of None \<Rightarrow> [] | Some ps \<Rightarrow> ps)
     @ (case cr_metadataPatterns rule of
          None \<Rightarrow> []
        | Some (t, d) \<Rightarrow> (case t of None \<Rightarrow> [] | Some ps \<Rightarrow> ps)
                         @ (case d of None \<Rightarrow> [] | Some ps \<Rightarrow> ps))"

definition patternsCompile :: "ClassificationRule list \<Rightarrow> bool" where
  "patternsCompile rules = list_all (\<lambda>rule. list_all (\<lambda>p. rxCompile p \<noteq> None) (patternsOf rule)) rules"

section \<open>Rule manager: matching follows the list order\<close>

lemma sortRules_sorted: "sortedByPriority (sortRules rs)"
  by (simp add: sortedByPriority_def sortRules_def)

lemma set_sortRules: "set (sortRules rs) = set rs"
  by (simp add: sortRules_def)

lemma matchPatterns_None:
  "(matchPatterns E r ps u = None) = (\<not> list_ex (\<lambda>p. RegExp_i E p u = Some True) ps)"
  by (induction ps) (auto split: option.splits bool.splits)

lemma matchPatterns_platform:
  "matchPatterns E r ps u = Some res \<Longrightarrow> d_platform res = platform r"
  by (induction ps) (auto split: option.splits bool.splits)

lemma matchRules_first:
  assumes "\<forall>x \<in> set pre. \<not> (enabled x \<and> list_ex (\<lambda>p. RegExp_i E p u = Some True) (patterns x))"
    and "enabled r" and "list_ex (\<lambda>p. RegExp_i E p u = Some True) (patterns r)"
  shows "d_platform (matchRules E (pre @ r # post) u) = platform r"
  using assms
proof (induction pre)
  case Nil
  then obtain res where "matchPatterns E r (patterns r) u = Some res"
    using matchPatterns_None [of E r "patterns r" u] by (cases "matchPatterns E r (patterns r) u") auto
  with Nil show ?case by (simp add: matchPatterns_platform)
next
  case (Cons x pre)
  have "\<not> enabled x \<or> matchPatterns E x (patterns x) u = None"
    using Cons.prems(1) by (simp add: matchPatterns_None)
  moreover have "d_platform (matchRules E (pre @ r # post) u) = platform r"
    using Cons by simp
  ultimately show ?case by auto
qed

lemma sorted_before:
  assumes "sortedByPriority (pre @ r # post)" and "x \<in> set pre"
  shows "priority r \<le> priority x"
  using assms by (auto simp: sortedByPriority_def sorted_append)

lemma first_of_top_priority:
  assumes R: "r \<in> set rules" and en: "enabled r"
    and m: "list_ex (\<lambda>p. RegExp_i E p u = Some True) (patterns r)"
    and others: "\<forall>x \<in> set rules. x \<noteq> r \<and> priority r \<le> priority x \<longrightarrow>
                   \<not> (enabled x \<and> list_ex (\<lambda>p. RegExp_i E p u = Some True) (patterns x))"
  shows "d_platform (matchRules E (sortRules rules) u) = platform r"
proof -
  have "r \<in> set (sortRules rules)" using R by (simp add: set_sortRules)
  then obtain pre post where sp: "sortRules rules = pre @ r # post" and nr: "r \<notin> set pre"
    by (meson split_list_first)
  have "\<forall>x \<in> set pre. \<not> (enabled x \<and> list_ex (\<lambda>p. RegExp_i E p u = Some True) (patterns x))"
  proof
    fix x assume x: "x \<in> set pre"
    have "priority r \<le> priority x"
      using sorted_before [of pre r post x] sortRules_sorted [of rules] sp x by simp
    moreover have "x \<in> set rules" using x sp set_sortRules [of rules] by auto
    moreover have "x \<noteq> r" using x nr by auto
    ultimately show "\<not> (enabled x \<and> list_ex (\<lambda>p. RegExp_i E p u = Some True) (patterns x))"
      using others by blast
  qed
  then show ?thesis using matchRules_first [OF _ en m] sp by simp
qed

text \<open>
  Claim C4, as amended. Let \<open>R1\<close> (priority 100) and \<open>R2\<close> (priority 50) both have
  a pattern that matches the URL, let \<open>R1\<close> be enabled, and let no enabled rule of
  priority 100 or more among the rules already registered match the URL. Then
  \<open>detectPlatform\<close> returns the platform of \<open>R1\<close>, whether \<open>R1\<close> or \<open>R2\<close> was
  registered first.
\<close>

theorem rule_priority_determinism:
  assumes p1: "priority R1 = 100" and p2: "priority R2 = 50"
    and en: "enabled R1"
    and m1: "patternMatches E url R1" and m2: "patternMatches E url R2"
    and others: "list_all (\<lambda>x. priority x < 100 \<or> \<not> enabled x \<or> \<not> patternMatches E url x) rs"
  shows "d_platform (detectPlatform E (addRule (addRule rs R1) R2) url) = platform R1
       \<and> d_platform (detectPlatform E (addRule (addRule rs R2) R1) url) = platform R1"
proof -
  let ?m = "\<lambda>x. list_ex (\<lambda>p. RegExp_i E p (trim url) = Some True) (patterns x)"
  have o: "\<And>x. x \<in> set rs \<Longrightarrow> priority R1 \<le> priority x \<Longrightarrow> \<not> (enabled x \<and> ?m x)"
    using others p1 by (auto simp: list_all_iff patternMatches_def)
  have m: "?m R1" using m1 by (simp add: patternMatches_def)
  have a: "d_platform (matchRules E (sortRules (sortRules (rs @ [R1]) @ [R2])) (trim url)) = platform R1"
  proof (rule first_of_top_priority [OF _ en m])
    show "R1 \<in> set (sortRules (rs @ [R1]) @ [R2])" by (simp add: set_sortRules)
    show "\<forall>x\<in>set (sortRules (rs @ [R1]) @ [R2]). x \<noteq> R1 \<and> priority R1 \<le> priority x \<longrightarrow>
            \<not> (enabled x \<and> ?m x)"
      using o p1 p2 by (auto simp: set_sortRules)
  qed
  have b: "d_platform (matchRules E (sortRules (sortRules (rs @ [R2]) @ [R1])) (trim url)) = platform R1"
  proof (rule first_of_top_priority [OF _ en m])
    show "R1 \<in> set (sortRules (rs @ [R2]) @ [R1])" by simp
    show "\<forall>x\<in>set (sortRules (rs @ [R2]) @ [R1]). x \<noteq> R1 \<and> priority R1 \<le> priority x \<longrightarrow>
            \<not> (enabled x \<and> ?m x)"
      using o p1 p2 by (auto simp: set_sortRules)
  qed
  show ?thesis using a b by (simp add: detectPlatform_def addRule_def)
qed

lemma builtin_sorted: "initializeRules [] = getBuiltinRules"
  by code_simp

text \<open>The theorem at two rules registered on top of the built-in ones.\<close>

theorem rule_priority_determinism_witness:
  "priority (exampleRule medium ''^https://example~.org/'' 100 True) = 100
   \<and> priority (exampleRule devto ''^https://'' 50 True) = 50
   \<and> enabled (exampleRule medium ''^https://example~.org/'' 100 True)
   \<and> patternMatches jsEngine ''https://example.org/a'' (exampleRule medium ''^https://example~.org/'' 100 True)
   \<and> patternMatches jsEngine ''https://example.org/a'' (exampleRule devto ''^https://'' 50 True)
   \<and> list_all (\<lambda>x. priority x < 100 \<or> \<not> enabled x \<or> \<not> patternMatches jsEngine ''https://example.org/a'' x)
        (initializeRules [])
   \<and> d_platform (detectPlatform jsEngine
        (addRule (addRule (initializeRules []) (exampleRule medium ''^https://example~.org/'' 100 True))
           (exampleRule devto ''^https://'' 50 True)) ''https://example.org/a'') = medium
   \<and> d_platform (detectPlatform jsEngine
        (addRule (addRule (initializeRules []) (exampleRule devto ''^https://'' 50 True))
           (exampleRule medium ''^https://example~.org/'' 100 True)) ''https://example.org/a'') = medium"
proof -
  have h1: "priority (exampleRule medium ''^https://example~.org/'' 100 True) = 100"
    by (simp add: exampleRule_def)
  have h2: "priority (exampleRule devto ''^https://'' 50 True) = 50"
    by (simp add: exampleRule_def)
  have h3: "enabled (exampleRule medium ''^https://example~.org/'' 100 True)"
    by (simp add: exampleRule_def)
  have h4: "patternMatches jsEngine ''https://example.org/a'' (exampleRule medium ''^https://example~.org/'' 100 True)"
    by code_simp
  have h5: "patternMatches jsEngine ''https://example.org/a'' (exampleRule devto ''^https://'' 50 True)"
    by code_simp
  have h6: "list_all (\<lambda>x. priority x < 100 \<or> \<not> enabled x \<or> \<not> patternMatches jsEngine ''https://example.org/a'' x)
        (initializeRules [])"
    by code_simp
  have pf: "platform (exampleRule medium ''^https://example~.org/'' 100 True) = medium"
    by (simp add: exampleRule_def)
  show ?thesis
    using rule_priority_determinism [OF h1 h2 h3 h4 h5 h6] h1 h2 h3 h4 h5 h6 pf by simp
qed

text \<open>
  Claim C4 as stated fails: a rule of priority 100 that is disabled is skipped
  (\<open>if (!rule.enabled) continue\<close>), and the rule of priority 50 wins, in either
  order of registration.
\<close>

theorem rule_priority_disabled_counterexample:
  "priority (exampleRule medium ''^https://'' 100 False) = 100
   \<and> priority (exampleRule devto ''^https://'' 50 True) = 50
   \<and> patternMatches jsEngine ''https://example.org/a'' (exampleRule medium ''^https://'' 100 False)
   \<and> patternMatches jsEngine ''https://example.org/a'' (exampleRule devto ''^https://'' 50 True)
   \<and> d_platform (detectPlatform jsEngine
        (initializeRules [exampleRule medium ''^https://'' 100 False, exampleRule devto ''^https://'' 50 True])
        ''https://example.org/a'') = devto
   \<and> d_platform (detectPlatform jsEngine
        (initializeRules [exampleRule devto ''^https://'' 50 True, exampleRule medium ''^https://'' 100 False])
        ''https://example.org/a'') = devto
   \<and> d_platform (detectPlatform jsEngine
        (addRule (addRule [] (exampleRule medium ''^https://'' 100 False)) (exampleRule devto ''^https://'' 50 True))
        ''https://example.org/a'') = devto"
  by code_simp

section \<open>Rule manager: the sort order\<close>

text \<open>
  Claim C8 says that the rule list is sorted by descending priority after every
  operation. \<open>updateRule\<close> overwrites a rule in place and does not sort again:
  raising the priority of the built-in generic rule to 200 leaves it last in the list,
  the list is no longer sorted, and a URL that both the generic rule and the dev.to
  rule (priority 50) match is still given to dev.to. Registering the same rule with
  \<open>addRule\<close> puts it first.
\<close>

theorem updateRule_leaves_rules_unsorted:
  "sortedByPriority (initializeRules [])
   \<and> snd (updateRule (initializeRules []) generic (noUpdates\<lparr>u_priority := Some 200\<rparr>))
   \<and> \<not> sortedByPriority (fst (updateRule (initializeRules []) generic (noUpdates\<lparr>u_priority := Some 200\<rparr>)))
   \<and> d_platform (detectPlatform jsEngine
         (fst (updateRule (initializeRules []) generic (noUpdates\<lparr>u_priority := Some 200\<rparr>)))
         ''https://dev.to/news/today'') = devto
   \<and> d_platform (detectPlatform jsEngine
         (addRule (fst (updateRule (initializeRules []) generic (noUpdates\<lparr>u_enabled := Some False\<rparr>)))
            ((mkRule generic [''^https?://[^/]+/news/[^/]+''] article None 200)))
         ''https://dev.to/news/today'') = generic"
  by code_simp

section \<open>Cache: the size bound and batch eviction\<close>

lemma keys_delete: "map fst (AList.delete k al) = removeAll k (map fst al)"
  by (induction al) auto

lemma length_delete_le: "length (AList.delete k al) \<le> length al"
  by (simp add: AList.delete_eq)

lemma length_fold_delete_le:
  "length (fold (\<lambda>e m. AList.delete (fst e) m) es al) \<le> length al"
proof (induction es arbitrary: al)
  case Nil then show ?case by simp
next
  case (Cons e es)
  have "length (fold (\<lambda>e m. AList.delete (fst e) m) es (AList.delete (fst e) al))
        \<le> length (AList.delete (fst e) al)" by (rule Cons.IH)
  then show ?case using length_delete_le [of "fst e" al] by simp
qed

lemma distinct_fold_delete:
  "distinct (map fst al) \<Longrightarrow> distinct (map fst (fold (\<lambda>e m. AList.delete (fst e) m) es al))"
  by (induction es arbitrary: al) (auto simp: distinct_delete)

lemma filter_delete:
  "filter P (AList.delete k al) = filter (\<lambda>x. fst x \<noteq> k \<and> P x) al"
  by (induction al) auto

lemma fold_delete_filter:
  "fold (\<lambda>e m. AList.delete (fst e) m) es al = filter (\<lambda>x. fst x \<notin> fst ` set es) al"
proof (induction es arbitrary: al)
  case Nil then show ?case by simp
next
  case (Cons e es)
  have "fold (\<lambda>e m. AList.delete (fst e) m) (e # es) al
        = filter (\<lambda>x. fst x \<notin> fst ` set es) (AList.delete (fst e) al)"
    by (simp add: Cons.IH)
  also have "\<dots> = filter (\<lambda>x. fst x \<noteq> fst e \<and> fst x \<notin> fst ` set es) al"
    by (rule filter_delete)
  also have "\<dots> = filter (\<lambda>x. fst x \<notin> fst ` set (e # es)) al"
    by (rule filter_cong) auto
  finally show ?case .
qed

lemma length_update:
  "length (AList.update k v al) = (if k \<in> fst ` set al then length al else Suc (length al))"
  by (induction al) auto

lemma length_update_le: "length (AList.update k v al) \<le> Suc (length al)"
  by (simp add: length_update)

lemma length_update_present:
  "map_of al k = Some x \<Longrightarrow> length (AList.update k v al) = length al"
  by (simp add: length_update) (metis domI dom_map_of_conv_image_fst)

lemma distinct_keys_sort_key:
  "distinct (map fst al) \<Longrightarrow> distinct (map fst (sort_key f al))"
  by (simp add: distinct_map)

text \<open>Among two or more entries with distinct keys, one has a key that is not empty.\<close>

lemma some_key_nonempty:
  assumes "distinct (map fst es)" and "2 \<le> length es"
  shows "filter (\<lambda>e. fst e \<noteq> []) es \<noteq> []"
proof -
  obtain a b rest where es: "es = a # b # rest"
    using assms(2) by (cases es; cases "tl es") auto
  then have "fst a \<noteq> fst b" using assms(1) by auto
  then have "fst a \<noteq> [] \<or> fst b \<noteq> []" by auto
  then show ?thesis using es by auto
qed

lemma evict_shrinks:
  assumes d: "distinct (map fst al)" and n: "10 < length al"
  shows "length (fold (\<lambda>e m. AList.delete (fst e) m)
            (filter (\<lambda>e. fst e \<noteq> []) (take 10 (sort_key f al))) al) < length al"
proof -
  let ?es = "take 10 (sort_key f al)"
  let ?vs = "filter (\<lambda>e. fst e \<noteq> []) ?es"
  have "distinct (map fst ?es)"
    using distinct_keys_sort_key [OF d, of f] by (simp add: take_map [symmetric] distinct_take)
  moreover have "2 \<le> length ?es" using n by simp
  ultimately have "?vs \<noteq> []" by (rule some_key_nonempty)
  then obtain v where v: "v \<in> set ?vs" by (cases ?vs) auto
  then have "v \<in> set al" by (auto dest: in_set_takeD)
  moreover have "fst v \<in> fst ` set ?vs" using v by blast
  ultimately have "length (filter (\<lambda>x. fst x \<notin> fst ` set ?vs) al) < length al"
    by (intro length_filter_less [of v]) auto
  then show ?thesis by (simp only: fold_delete_filter)
qed

lemma evictOldest_cfg [simp]:
  "cfg_maxSize (snd (evictOldestItems n c)) = cfg_maxSize c"
  "cfg_enabled (snd (evictOldestItems n c)) = cfg_enabled c"
  "cfg_duration (snd (evictOldestItems n c)) = cfg_duration c"
  by (simp_all add: evictOldestItems_def Let_def)

lemma evictOldest_length: "length (cache (snd (evictOldestItems n c))) \<le> length (cache c)"
  by (simp add: evictOldestItems_def Let_def length_fold_delete_le)

lemma evictOldest_distinct:
  "distinct (map fst (cache c)) \<Longrightarrow> distinct (map fst (cache (snd (evictOldestItems n c))))"
  by (simp add: evictOldestItems_def Let_def distinct_fold_delete)

lemma evictLeastUsed_length: "length (cache (snd (evictLeastUsed n c))) \<le> length (cache c)"
  by (simp add: evictLeastUsed_def Let_def length_fold_delete_le)

lemma evictLeastUsed_inv:
  assumes "cacheInv c"
  shows "cacheInv (snd (evictLeastUsed n c))"
proof -
  have "distinct (map fst (cache (snd (evictLeastUsed n c))))"
    using assms by (simp add: evictLeastUsed_def Let_def distinct_fold_delete cacheInv_def)
  moreover have "cfg_maxSize (snd (evictLeastUsed n c)) = cfg_maxSize c"
    by (simp add: evictLeastUsed_def Let_def)
  ultimately show ?thesis
    using assms evictLeastUsed_length [of n c] by (simp add: cacheInv_def)
qed

lemma evictOldest_inv: "cacheInv c \<Longrightarrow> cacheInv (snd (evictOldestItems n c))"
  using evictOldest_length [of n c] evictOldest_distinct [of c n]
  by (auto simp: cacheInv_def)

lemma cacheSet_inv:
  assumes "cacheInv c"
  shows "cacheInv (cacheSet k r d now c)"
proof (cases "cfg_enabled c")
  case False then show ?thesis using assms by (simp add: cacheSet_def)
next
  case True
  show ?thesis
  proof (cases "cfg_maxSize c \<le> int (length (cache c))")
    case False
    then have "int (length (AList.update k v (cache c))) \<le> cfg_maxSize c" for v
      using length_update_le [of k v "cache c"] by linarith
    then show ?thesis using assms True False
      by (simp add: cacheSet_def Let_def cacheInv_def distinct_update)
  next
    case full: True
    let ?c1 = "snd (evictOldestItems 10 c)"
    have "int (length (cache ?c1)) < cfg_maxSize c"
    proof (cases "length (cache c) \<le> 10")
      case True
      then show ?thesis using assms by (simp add: evictOldestItems_def cacheInv_def)
    next
      case False
      then have "length (cache ?c1) < length (cache c)"
        using assms evict_shrinks [of "cache c" "\<lambda>e. timestamp (snd e)"]
        by (simp add: evictOldestItems_def Let_def cacheInv_def)
      then show ?thesis using assms by (simp add: cacheInv_def)
    qed
    then have "int (length (AList.update k v (cache ?c1))) \<le> cfg_maxSize c" for v
      using length_update_le [of k v "cache ?c1"] by linarith
    moreover have "distinct (map fst (cache ?c1))"
      using assms evictOldest_distinct by (simp add: cacheInv_def)
    ultimately show ?thesis using assms True full
      by (simp add: cacheSet_def Let_def cacheInv_def distinct_update)
  qed
qed

lemma cacheGet_inv: "cacheInv c \<Longrightarrow> cacheInv (snd (cacheGet k now c))"
  using length_delete_le [of k "cache c"]
  by (auto simp: cacheGet_def cacheInv_def distinct_update distinct_delete length_update_present
      split: option.splits)

lemma cacheRefresh_inv: "cacheInv c \<Longrightarrow> cacheInv (snd (cacheRefresh k d now c))"
  by (auto simp: cacheRefresh_def cacheInv_def Let_def distinct_update length_update_present
      split: option.splits)

lemma cacheCleanup_inv:
  assumes "cacheInv c"
  shows "cacheInv (snd (cacheCleanup now c))"
proof -
  let ?kept = "filter (\<lambda>e. \<not> now > expiresAt (snd e)) (cache c)"
  have "length ?kept \<le> length (cache c)"
    by (rule length_filter_le)
  moreover have "int (length (cache c)) \<le> cfg_maxSize c"
    using assms by (simp add: cacheInv_def)
  ultimately have "int (length ?kept) \<le> cfg_maxSize c" by linarith
  moreover have "distinct (map fst ?kept)"
    using assms by (simp add: cacheInv_def distinct_map_filter)
  ultimately show ?thesis
    using assms by (simp add: cacheCleanup_def cacheInv_def)
qed

lemma cacheDelete_inv: "cacheInv c \<Longrightarrow> cacheInv (snd (cacheDelete k c))"
  using length_delete_le [of k "cache c"]
  by (auto simp: cacheDelete_def cacheInv_def distinct_delete)

lemma call_inv: "cacheInv c \<Longrightarrow> cacheInv (call x c)"
proof (cases x)
  case (Pair op now)
  assume "cacheInv c"
  then show ?thesis unfolding Pair
    by (cases op)
       (simp_all add: cacheGet_inv cacheSet_inv cacheDelete_inv cacheRefresh_inv
          cacheCleanup_inv evictLeastUsed_inv evictOldest_inv,
        simp add: cacheClear_def cacheInv_def)
qed

lemma calls_inv: "cacheInv c \<Longrightarrow> cacheInv (calls cs c)"
  unfolding calls_def by (induction cs arbitrary: c) (simp_all add: call_inv)

lemma call_maxSize: "cfg_maxSize (call x c) = cfg_maxSize c"
proof (cases x)
  case (Pair op now)
  show ?thesis unfolding Pair
    by (cases op)
       (simp_all add: cacheGet_def cacheSet_def cacheDelete_def cacheClear_def cacheRefresh_def
          cacheCleanup_def evictLeastUsed_def evictOldestItems_def Let_def split: option.splits)
qed

lemma calls_maxSize: "cfg_maxSize (calls cs c) = cfg_maxSize c"
  unfolding calls_def by (induction cs arbitrary: c) (simp_all add: call_maxSize)

lemma new_inv: "1 \<le> maxSize \<Longrightarrow> cacheInv (newCacheManager en dur maxSize iv t0)"
  by (simp add: cacheInv_def newCacheManager_def)

lemma remove_oldest:
  assumes d: "distinct (map fst al)" and sub: "set es \<subseteq> set al"
  shows "filter (\<lambda>x. fst x \<notin> fst ` set es) al = filter (\<lambda>x. x \<notin> set es) al"
proof (rule filter_cong [OF refl])
  fix x assume x: "x \<in> set al"
  have "fst x \<in> fst ` set es \<Longrightarrow> x \<in> set es"
  proof -
    assume "fst x \<in> fst ` set es"
    then obtain y where y: "y \<in> set es" "fst y = fst x" by auto
    then have "y \<in> set al" using sub by auto
    then have "y = x" using d x y(2) by (metis eq_key_imp_eq_value prod.collapse)
    then show "x \<in> set es" using y(1) by simp
  qed
  then show "(fst x \<notin> fst ` set es) = (x \<notin> set es)" by auto
qed

lemma cacheSet_full_small:
  assumes "cfg_enabled c" and "cfg_maxSize c \<le> int (length (cache c))" and "length (cache c) \<le> 10"
  shows "cache (cacheSet k r d now c) = [(k, newItem c r d now)]"
  using assms by (simp add: cacheSet_def evictOldestItems_def newItem_def Let_def)

lemma cacheSet_full_large:
  assumes en: "cfg_enabled c" and full: "cfg_maxSize c \<le> int (length (cache c))"
    and big: "10 < length (cache c)" and dist: "distinct (map fst (cache c))"
    and keys: "list_all (\<lambda>e. fst e \<noteq> []) (oldest 10 c)"
  shows "cache (cacheSet k r d now c)
         = AList.update k (newItem c r d now) (filter (\<lambda>e. e \<notin> set (oldest 10 c)) (cache c))"
proof -
  have f: "filter (\<lambda>e. fst e \<noteq> []) (oldest 10 c) = oldest 10 c"
    using keys by (simp add: list_all_iff)
  have sub: "set (oldest 10 c) \<subseteq> set (cache c)"
    by (auto simp: oldest_def dest: in_set_takeD)
  have "cache (snd (evictOldestItems 10 c))
        = fold (\<lambda>e m. AList.delete (fst e) m) (filter (\<lambda>e. fst e \<noteq> []) (oldest 10 c)) (cache c)"
    using big by (simp add: evictOldestItems_def Let_def oldest_def)
  also have "\<dots> = fold (\<lambda>e m. AList.delete (fst e) m) (oldest 10 c) (cache c)"
    by (simp only: f)
  also have "\<dots> = filter (\<lambda>x. fst x \<notin> fst ` set (oldest 10 c)) (cache c)"
    by (rule fold_delete_filter)
  also have "\<dots> = filter (\<lambda>x. x \<notin> set (oldest 10 c)) (cache c)"
    by (rule remove_oldest [OF dist sub])
  finally have "cache (snd (evictOldestItems 10 c))
        = filter (\<lambda>x. x \<notin> set (oldest 10 c)) (cache c)" .
  then show ?thesis
    using en full by (simp add: cacheSet_def newItem_def Let_def)
qed

text \<open>
  Claim C9, as amended. A cache built with a maximum size of at least one never holds
  more entries than that, whichever calls are made on it. When \<open>set\<close> is called on
  an enabled cache that holds the maximum or more, a cache of at most ten entries is
  emptied; a larger one loses its ten oldest entries by creation time (when none of
  them has the empty key); then the new entry is stored.
\<close>

theorem cache_bound_and_batch_eviction:
  assumes "1 \<le> maxSize" and "c = calls cs (newCacheManager en dur maxSize iv t0)"
  shows "int (length (cache c)) \<le> maxSize
       \<and> (cfg_enabled c \<and> maxSize \<le> int (length (cache c)) \<and> length (cache c) \<le> 10
            \<longrightarrow> cache (cacheSet k r d now c) = [(k, newItem c r d now)])
       \<and> (cfg_enabled c \<and> maxSize \<le> int (length (cache c)) \<and> 10 < length (cache c)
            \<and> list_all (\<lambda>e. fst e \<noteq> []) (oldest 10 c)
            \<longrightarrow> length (oldest 10 c) = 10
                \<and> cache (cacheSet k r d now c)
                    = AList.update k (newItem c r d now)
                        (filter (\<lambda>e. e \<notin> set (oldest 10 c)) (cache c)))"
proof -
  have inv: "cacheInv c"
    using assms new_inv calls_inv by simp
  have ms: "cfg_maxSize c = maxSize"
    using assms(2) by (simp add: calls_maxSize newCacheManager_def)
  have "int (length (cache c)) \<le> maxSize"
    using inv ms by (simp add: cacheInv_def)
  moreover have "cfg_enabled c \<and> maxSize \<le> int (length (cache c)) \<and> length (cache c) \<le> 10
            \<longrightarrow> cache (cacheSet k r d now c) = [(k, newItem c r d now)]"
    using cacheSet_full_small [of c k r d now] ms by simp
  moreover have "cfg_enabled c \<and> maxSize \<le> int (length (cache c)) \<and> 10 < length (cache c)
            \<and> list_all (\<lambda>e. fst e \<noteq> []) (oldest 10 c)
            \<longrightarrow> length (oldest 10 c) = 10
                \<and> cache (cacheSet k r d now c)
                    = AList.update k (newItem c r d now)
                        (filter (\<lambda>e. e \<notin> set (oldest 10 c)) (cache c))"
    using cacheSet_full_large [of c k r d now] ms inv
    by (simp add: cacheInv_def oldest_def)
  ultimately show ?thesis by blast
qed

lemma filled_11: "map fst (cache (filled 11 11))
   = map (\<lambda>i. ''k'' @ replicate i CHR ''x'') [0 ..< 11]"
  by code_simp

text \<open>The theorem at a cache of maximum size 11 that holds 11 entries.\<close>

theorem cache_bound_and_batch_eviction_witness:
  "(1::int) \<le> 11
   \<and> int (length (cache (filled 11 11))) \<le> 11
   \<and> cfg_enabled (filled 11 11) \<and> 11 \<le> int (length (cache (filled 11 11)))
   \<and> 10 < length (cache (filled 11 11))
   \<and> list_all (\<lambda>e. fst e \<noteq> []) (oldest 10 (filled 11 11))
   \<and> length (oldest 10 (filled 11 11)) = 10
   \<and> cache (cacheSet ''new'' (sampleResult youtube) None 20 (filled 11 11))
       = AList.update ''new'' (newItem (filled 11 11) (sampleResult youtube) None 20)
           (filter (\<lambda>e. e \<notin> set (oldest 10 (filled 11 11))) (cache (filled 11 11)))
   \<and> map fst (cache (cacheSet ''new'' (sampleResult youtube) None 20 (filled 11 11)))
       = [''kxxxxxxxxxx'', ''new'']"
proof -
  have h1: "(1::int) \<le> 11" by simp
  have h2: "filled 11 11 = calls
       (map (\<lambda>i. (Set (''k'' @ replicate i CHR ''x'') (sampleResult generic) None, int i)) [0 ..< 11])
       (newCacheManager True 300000 11 None 0)"
    by (simp only: filled_def)
  have e: "cfg_enabled (filled 11 11)" by code_simp
  have l: "length (cache (filled 11 11)) = 11" by code_simp
  have k: "list_all (\<lambda>e. fst e \<noteq> []) (oldest 10 (filled 11 11))" by code_simp
  have m: "map fst (cache (cacheSet ''new'' (sampleResult youtube) None 20 (filled 11 11)))
       = [''kxxxxxxxxxx'', ''new'']" by code_simp
  show ?thesis
    using cache_bound_and_batch_eviction [OF h1 h2, of "''new''" "sampleResult youtube" None 20]
      e l k m by simp
qed

text \<open>
  Claim C9 as stated fails for a maximum size below ten: a full cache of three
  entries is cleared as a whole (\<open>if (this.cache.size <= count)\<close>), which evicts
  three entries, not ten.
\<close>

theorem cache_small_eviction_counterexample:
  "cfg_enabled (filled 3 3)
   \<and> cfg_maxSize (filled 3 3) \<le> int (length (cache (filled 3 3)))
   \<and> fst (evictOldestItems 10 (filled 3 3)) = 3
   \<and> fst (evictOldestItems 10 (filled 3 3)) \<noteq> 10
   \<and> map fst (cache (cacheSet ''new'' (sampleResult youtube) None 20 (filled 3 3))) = [''new'']"
  by code_simp

section \<open>Cache: round trip\<close>

lemma cacheGet_after_set:
  assumes "cfg_enabled c"
  shows "fst (cacheGet k t (cacheSet k r d now c))
         = (if t \<le> expiresAt (newItem c r d now) then Some r else None)"
proof -
  let ?c1 = "if int (length (cache c)) \<ge> cfg_maxSize c then snd (evictOldestItems 10 c) else c"
  have c: "cacheSet k r d now c = ?c1\<lparr>cache := AList.update k (newItem c r d now) (cache ?c1)\<rparr>"
    using assms by (simp add: cacheSet_def newItem_def Let_def)
  have "cfg_enabled ?c1" using assms by simp
  then show ?thesis
    unfolding c by (simp add: cacheGet_def update_conv' newItem_def)
qed

text \<open>
  Claim C3, as amended. On an enabled cache, after \<open>set(k, r, d)\<close> at time \<open>now\<close>
  with \<open>d\<close> other than zero, \<open>get(k)\<close> at time \<open>t\<close> returns \<open>r\<close> when
  \<open>t \<le> now + d\<close> and nothing when \<open>t > now + d\<close>; a \<open>get\<close> on a key that is
  missing or expired returns nothing.
\<close>

theorem cache_round_trip:
  assumes "cfg_enabled c" and "d \<noteq> 0"
  shows "fst (cacheGet k t (cacheSet k r (Some d) now c)) = (if t \<le> now + d then Some r else None)
       \<and> (map_of (cache c) k' = None \<longrightarrow> fst (cacheGet k' t c) = None)
       \<and> (\<forall>item. map_of (cache c) k' = Some item \<and> expiresAt item < t
             \<longrightarrow> fst (cacheGet k' t c) = None)"
proof -
  have "fst (cacheGet k t (cacheSet k r (Some d) now c)) = (if t \<le> now + d then Some r else None)"
    using cacheGet_after_set [OF assms(1), of k t r "Some d" now] assms(2)
    by (simp add: newItem_def)
  moreover have "map_of (cache c) k' = None \<longrightarrow> fst (cacheGet k' t c) = None"
    by (simp add: cacheGet_def)
  moreover have "\<forall>item. map_of (cache c) k' = Some item \<and> expiresAt item < t
             \<longrightarrow> fst (cacheGet k' t c) = None"
    by (auto simp: cacheGet_def)
  ultimately show ?thesis by blast
qed

text \<open>The theorem at a time to live of five seconds, around its expiry.\<close>

theorem cache_round_trip_witness:
  "cfg_enabled (filled 2 1000) \<and> (5000::int) \<noteq> 0
   \<and> fst (cacheGet ''u'' 5999 (cacheSet ''u'' (sampleResult youtube) (Some 5000) 1000 (filled 2 1000)))
       = Some (sampleResult youtube)
   \<and> fst (cacheGet ''u'' 6000 (cacheSet ''u'' (sampleResult youtube) (Some 5000) 1000 (filled 2 1000)))
       = Some (sampleResult youtube)
   \<and> fst (cacheGet ''u'' 6001 (cacheSet ''u'' (sampleResult youtube) (Some 5000) 1000 (filled 2 1000)))
       = None
   \<and> map_of (cache (filled 2 1000)) ''u'' = None
   \<and> fst (cacheGet ''u'' 1000 (filled 2 1000)) = None
   \<and> map_of (cache (filled 2 1000)) ''k'' \<noteq> None
   \<and> fst (cacheGet ''k'' 300001 (filled 2 1000)) = None"
proof -
  have e: "cfg_enabled (filled 2 1000)" by code_simp
  have d: "(5000::int) \<noteq> 0" by simp
  have m: "map_of (cache (filled 2 1000)) ''u'' = None" by code_simp
  have x: "map_of (cache (filled 2 1000)) ''k''
           = Some \<lparr>result = sampleResult generic, timestamp = 0, expiresAt = 300000, accessCount = 0\<rparr>"
    by code_simp
  note a = cache_round_trip [OF e d, of "''u''" 5999 "sampleResult youtube" 1000 "''u''"]
  note b = cache_round_trip [OF e d, of "''u''" 6000 "sampleResult youtube" 1000 "''k''"]
  note c = cache_round_trip [OF e d, of "''u''" 6001 "sampleResult youtube" 1000 "''k''"]
  note f = cache_round_trip [OF e d, of "''u''" 1000 "sampleResult youtube" 1000 "''u''"]
  note g = cache_round_trip [OF e d, of "''u''" 300001 "sampleResult youtube" 1000 "''k''"]
  have g': "fst (cacheGet ''k'' 300001 (filled 2 1000)) = None"
    using g x by simp
  show ?thesis
    using a b c f g' e m x by simp
qed

text \<open>
  Claim C3 as stated fails for the time to live zero: \<open>duration || this.config.duration\<close>
  takes the configured five minutes, and the entry is still returned one millisecond
  after it was stored. (A disabled cache stores nothing at all.)
\<close>

theorem cache_zero_ttl_counterexample:
  "cfg_enabled (filled 2 1000)
   \<and> fst (cacheGet ''u'' 1001 (cacheSet ''u'' (sampleResult youtube) (Some 0) 1000 (filled 2 1000)))
       = Some (sampleResult youtube)
   \<and> (1001::int) > 1000 + 0"
  by code_simp

lemma disabled_cache_stores_nothing:
  "\<not> cfg_enabled c \<Longrightarrow> fst (cacheGet k t (cacheSet k r d now c)) = None"
  by (simp add: cacheGet_def cacheSet_def)

text \<open>
  The guard \<open>if (entry && entry[0])\<close> of \<open>evictOldestItems\<close> passes over an entry
  whose key is the empty string, the key under which \<open>detect('')\<close> caches: the oldest
  entry survives and nine entries are evicted.
\<close>

lemma empty_key_survives_eviction:
  "fst (hd (oldest 10 filledFromEmptyKey)) = []
   \<and> fst (evictOldestItems 10 filledFromEmptyKey) = 9
   \<and> map fst (cache (cacheSet ''new'' (sampleResult youtube) None 20 filledFromEmptyKey))
       = ['''', ''xxxxxxxxxx'', ''new'']"
  by code_simp

section \<open>Strategy decider: the strategies it can return\<close>

lemma bestMatchLoop_strategy:
  assumes "\<forall>rule \<in> set rules. P (cx_strategy rule)"
    and "\<forall>b. best = Some b \<longrightarrow> P (strategy b)"
    and "bestMatchLoop rules ty ctx best = Some d"
  shows "P (strategy d)"
  using assms
proof (induction rules arbitrary: best)
  case Nil
  then show ?case by simp
next
  case (Cons rule rules)
  show ?case
  proof (cases "cx_condition rule ty ctx
      \<and> (case best of None \<Rightarrow> True | Some b \<Rightarrow> cx_matchQuality rule ty ctx > confidence b)")
    case True
    then have "bestMatchLoop rules ty ctx
        (Some \<lparr>strategy = cx_strategy rule, confidence = cx_matchQuality rule ty ctx\<rparr>) = Some d"
      using Cons.prems(3) by (simp add: Let_def)
    then show ?thesis
      using Cons.IH [of "Some \<lparr>strategy = cx_strategy rule, confidence = cx_matchQuality rule ty ctx\<rparr>"]
        Cons.prems(1) by simp
  next
    case False
    then have "bestMatchLoop rules ty ctx best = Some d"
      using Cons.prems(3) by (auto simp: Let_def split: if_splits)
    then show ?thesis using Cons.IH [of best] Cons.prems(1,2) by simp
  qed
qed

lemma contextRules_strategies:
  "\<forall>rule \<in> set getContextRules. cx_strategy rule \<noteq> ignore"
  by (simp add: getContextRules_def)

lemma getDefaultStrategies_not_ignore: "getDefaultStrategies ty \<noteq> ignore"
  by (cases ty) (simp_all add: getDefaultStrategies_def)

lemma decide_not_ignore:
  assumes "\<forall>ty. defaultStrategies cfg ty \<noteq> Some ignore"
  shows "fst (decide cfg ty ctx now history) \<noteq> ignore"
proof -
  have d: "defaultStrategyOf cfg ty \<noteq> ignore"
    using assms by (auto simp: defaultStrategyOf_def split: option.splits)
  have "strategy (applyContextRules cfg ty ctx) \<noteq> ignore"
  proof (cases "bestMatchLoop getContextRules ty ctx None")
    case None
    then show ?thesis using d by (simp add: applyContextRules_def)
  next
    case (Some b)
    have "strategy b \<noteq> ignore"
      by (rule bestMatchLoop_strategy [where P = "\<lambda>s. s \<noteq> ignore", OF contextRules_strategies _ Some])
         simp
    then show ?thesis using Some by (simp add: applyContextRules_def)
  qed
  then show ?thesis
    using d by (simp add: decide_def decideWithDetails_def Let_def)
qed

text \<open>
  Claim C10. With the built-in strategy table and the built-in context rules, whatever
  the two flags, the content type and the context, \<open>decide\<close> returns \<open>clip\<close>,
  \<open>watch_later\<close> or \<open>bookmark\<close>, never \<open>ignore\<close>.
\<close>

theorem decide_never_ignore:
  "fst (decide (newStrategyDecider (\<lambda>ty. None) contextAware learning) ty ctx now history) = clip
   \<or> fst (decide (newStrategyDecider (\<lambda>ty. None) contextAware learning) ty ctx now history) = watch_later
   \<or> fst (decide (newStrategyDecider (\<lambda>ty. None) contextAware learning) ty ctx now history) = bookmark"
proof -
  have "\<forall>ty. defaultStrategies (newStrategyDecider (\<lambda>ty. None) contextAware learning) ty \<noteq> Some ignore"
    by (simp add: newStrategyDecider_def getDefaultStrategies_not_ignore)
  then have "fst (decide (newStrategyDecider (\<lambda>ty. None) contextAware learning) ty ctx now history) \<noteq> ignore"
    by (rule decide_not_ignore)
  then show ?thesis
    by (cases "fst (decide (newStrategyDecider (\<lambda>ty. None) contextAware learning) ty ctx now history)") simp_all
qed

text \<open>The theorem at a video with a short queue, where the answer is \<open>watch_later\<close>.\<close>

theorem decide_never_ignore_witness:
  "fst (decide (newStrategyDecider (\<lambda>ty. None) None None) video
         (emptyContext\<lparr>ctx_currentQueueSize := Some 2\<rparr>) 0 []) = watch_later
   \<and> fst (decide (newStrategyDecider (\<lambda>ty. None) None None) article
         (emptyContext\<lparr>ctx_availableStorage := Some 1000\<rparr>) 0 []) = bookmark
   \<and> fst (decide (newStrategyDecider (\<lambda>ty. None) None None) generic_content emptyContext 0 []) = clip"
proof -
  have a: "fst (decide (newStrategyDecider (\<lambda>ty. None) None None) video
         (emptyContext\<lparr>ctx_currentQueueSize := Some 2\<rparr>) 0 []) \<noteq> clip" by code_simp
  have b: "fst (decide (newStrategyDecider (\<lambda>ty. None) None None) video
         (emptyContext\<lparr>ctx_currentQueueSize := Some 2\<rparr>) 0 []) \<noteq> bookmark" by code_simp
  have c: "fst (decide (newStrategyDecider (\<lambda>ty. None) None None) article
         (emptyContext\<lparr>ctx_availableStorage := Some 1000\<rparr>) 0 []) = bookmark" by code_simp
  have d: "fst (decide (newStrategyDecider (\<lambda>ty. None) None None) generic_content emptyContext 0 []) = clip"
    by code_simp
  show ?thesis
    using decide_never_ignore [of None None video "emptyContext\<lparr>ctx_currentQueueSize := Some 2\<rparr>" 0 "[]"]
      a b c d by simp
qed

section \<open>Classifier: only the first rule of a platform is looked at\<close>

text \<open>
  Claim C6 says that the matching platform rule of highest confidence decides. For a
  bilibili column article (\<open>bilibili.com/read/...\<close>) the only rule whose pattern
  matches is the second bilibili rule (article, 0.9). The loop returns from its first
  iteration: the first bilibili rule (video, 0.95) does not match and answers with its
  own content type at 0.8 of its confidence, 0.76, which clears the threshold, so
  \<open>classify\<close> returns \<open>video\<close>.
\<close>

theorem classify_ignores_later_rules:
  "map (\<lambda>rule. (cr_contentType rule, cr_confidence rule, urlPatternStep jsEngine rule bilibiliColumn))
       (filter (\<lambda>rule. cr_platform rule = bilibili) getDefaultRules)
     = [(video, 95 / 100, Inr False), (article, 9 / 10, Inr True)]
   \<and> applyPlatformRules jsEngine getDefaultRules bilibili bilibiliColumn = Inr (video, 76 / 100)
   \<and> classify jsEngine defaultClassifierConfig getDefaultRules bilibili bilibiliColumn = Inr video"
  by code_simp

section \<open>Batch detection\<close>











section \<open>Normalisation\<close>


section \<open>Detection: the fallback result\<close>




section \<open>Detection: a blog post on an unknown site\<close>

text \<open>
  Claim C7 expects the content type \<open>article\<close> for
  \<open>https://unknown-blog.example.com/post/my-entry\<close>. The generic rule of the rule
  manager matches the URL, and that rule names the content type \<open>article\<close>; but
  \<open>detect\<close> takes only the platform from the matched rule, the classifier has no
  rule for the generic platform and no metadata to apply its heuristics to, and the
  content type of the result is \<open>generic\<close>. Whatever the metadata extractor \<open>X\<close>
  does, it is not called.
\<close>

theorem detect_generic_blog_post:
  "normalizeUrl jsURL ''https://unknown-blog.example.com/post/my-entry''
     = ''https://unknown-blog.example.com/post/my-entry''
   \<and> fst (serviceDetect jsURL jsEngine X 0 ''https://unknown-blog.example.com/post/my-entry''
        (newPlatformDetectorService 0))
     = \<lparr>r_platform = generic, r_contentType = generic_content, r_confidence = 9 / 10,
        r_matchedPattern = Some (esc ''^https?://[^/]+/post/[^/]+''), r_metadata = None,
        r_processingStrategy = Some clip, r_error = None, r_warnings = None\<rparr>"
  by code_simp

section \<open>Closed instances for the batch and for normalisation\<close>




section \<open>Rule manager: the operations that keep the order\<close>

lemma updateRule_priorities:
  "u_priority u = None \<Longrightarrow> map priority (fst (updateRule rules pf u)) = map priority rules"
  by (induction rules) (auto simp: applyUpdates_def split: prod.splits)

lemma sortedByPriority_priorities:
  "map priority rs = map priority rs' \<Longrightarrow> sortedByPriority rs = sortedByPriority rs'"
proof -
  assume "map priority rs = map priority rs'"
  then have "map uminus (map priority rs) = map uminus (map priority rs')" by simp
  then have "map (\<lambda>r. - priority r) rs = map (\<lambda>r. - priority r) rs'"
    by (simp add: comp_def)
  then show ?thesis by (simp add: sortedByPriority_def)
qed

text \<open>
  The rule list is sorted by descending priority after the constructor and after
  \<open>addRule\<close>, and stays sorted under \<open>loadRulesFromUrl\<close>, under
  \<open>setRuleEnabled\<close> and under an \<open>updateRule\<close> that leaves the priority alone.
\<close>

theorem sort_order_after_sorting_operations:
  "sortedByPriority (initializeRules configured)
   \<and> sortedByPriority (addRule rules rule)
   \<and> (sortedByPriority rules \<longrightarrow> sortedByPriority (loadRulesFromUrl dynamic fetched rules))
   \<and> (sortedByPriority rules \<longrightarrow> sortedByPriority (fst (setRuleEnabled rules pf en)))
   \<and> (sortedByPriority rules \<and> u_priority u = None
        \<longrightarrow> sortedByPriority (fst (updateRule rules pf u)))"
proof -
  have a: "sortedByPriority (initializeRules configured)"
    by (simp add: initializeRules_def sortRules_sorted)
  have b: "sortedByPriority (addRule rules rule)"
    by (simp add: addRule_def sortRules_sorted)
  have c: "sortedByPriority rules \<longrightarrow> sortedByPriority (loadRulesFromUrl dynamic fetched rules)"
    by (simp add: loadRulesFromUrl_def sortRules_sorted split: option.splits)
  have e: "sortedByPriority rules \<and> u_priority u = None
        \<longrightarrow> sortedByPriority (fst (updateRule rules pf u))" for u
    using sortedByPriority_priorities [OF updateRule_priorities [where u = u and rules = rules and pf = pf]] by simp
  have d: "sortedByPriority rules \<longrightarrow> sortedByPriority (fst (setRuleEnabled rules pf en))"
    using e [of "noUpdates\<lparr>u_enabled := Some en\<rparr>"]
    by (simp add: setRuleEnabled_def noUpdates_def)
  from a b c d e show ?thesis by (intro conjI)
qed

text \<open>
  The theorem at the built-in rules, with the GitHub rule disabled and with two rules
  fetched from a URL.
\<close>

theorem sort_order_after_sorting_operations_witness:
  "sortedByPriority (initializeRules [])
   \<and> sortedByPriority (fst (setRuleEnabled (initializeRules []) github False))
   \<and> map enabled (fst (setRuleEnabled (initializeRules []) github False))
       = [True, True, True, True, True, False, True, True, True, True, True, True, True]
   \<and> sortedByPriority (loadRulesFromUrl True (Some [exampleRule devto ''^https://'' 50 True,
         exampleRule medium ''^https://'' 100 True]) (initializeRules []))"
proof -
  have m: "map enabled (fst (setRuleEnabled (initializeRules []) github False))
       = [True, True, True, True, True, False, True, True, True, True, True, True, True]"
    by code_simp
  show ?thesis
    using sort_order_after_sorting_operations
      [where configured = "[]" and rules = "initializeRules []" and dynamic = True
         and fetched = "Some [exampleRule devto ''^https://'' 50 True,
                              exampleRule medium ''^https://'' 100 True]"
         and pf = github and en = False] m
    by simp
qed

section \<open>Strategy decider: a decision without context\<close>

lemma bestMatchLoop_none:
  "\<forall>rule \<in> set rules. \<not> cx_condition rule ty ctx \<Longrightarrow> bestMatchLoop rules ty ctx best = best"
  by (induction rules) auto

lemma no_context_rule_without_context:
  "\<forall>rule \<in> set getContextRules. \<not> cx_condition rule ty emptyContext"
  by (simp add: getContextRules_def emptyContext_def metaDuration_def metaWordCount_def
      metaLanguage_def metaCommentCount_def metaTitleIncludes_def urlIncludes_def)

text \<open>
  \<open>decide(contentType)\<close> with no context, as \<open>detect\<close> calls it, gives the
  default strategy of the content type: no context rule applies to an empty context.
\<close>

theorem decide_without_context_is_default:
  "fst (decide cfg ty emptyContext now history) = defaultStrategyOf cfg ty"
  using bestMatchLoop_none [OF no_context_rule_without_context, of ty None]
  by (simp add: decide_def decideWithDetails_def applyContextRules_def Let_def)

section \<open>Cache: the hit and miss counters\<close>

text \<open>
  Apart from \<open>clear\<close>, which resets them, no operation of the cache lowers the
  counters of hits and misses.
\<close>

theorem cache_counters_monotone:
  "op \<noteq> Clear \<longrightarrow>
     hits c \<le> hits (call (op, now) c) \<and> misses c \<le> misses (call (op, now) c)"
  by (cases op)
     (simp_all add: cacheGet_def cacheSet_def cacheDelete_def cacheRefresh_def cacheCleanup_def
        evictLeastUsed_def evictOldestItems_def Let_def split: option.splits)

text \<open>
  The theorem at a lookup that hits; a lookup of an absent key counts a miss.
\<close>

theorem cache_counters_monotone_witness:
  "Get ''k'' \<noteq> Clear
   \<and> hits (call (Get ''k'', 5) (filled 2 1000)) = 1
   \<and> misses (call (Get ''kxx'', 5) (filled 2 1000)) = 1
   \<and> hits (filled 2 1000) \<le> hits (call (Get ''k'', 5) (filled 2 1000))
   \<and> misses (filled 2 1000) \<le> misses (call (Get ''k'', 5) (filled 2 1000))"
proof -
  have a: "hits (call (Get ''k'', 5) (filled 2 1000)) = 1" by code_simp
  have b: "misses (call (Get ''kxx'', 5) (filled 2 1000)) = 1" by code_simp
  show ?thesis
    using cache_counters_monotone [of "Get ''k''" "filled 2 1000" 5] a b by simp
qed

section \<open>Service: the classifier of the repository does not throw\<close>

text \<open>
  With the regular expressions of the engine model, a classifier all of whose patterns
  compile returns for every platform and every metadata.
\<close>

lemma testPatterns_compiled:
  "list_all (\<lambda>p. rxCompile p \<noteq> None) ps \<Longrightarrow> testPatterns jsEngine ps s \<noteq> Inl e"
  by (induction ps) (auto simp: jsEngine_def js_RegExp_i_def split: option.splits bool.splits)

lemma urlPatternStep_compiled:
  "list_all (\<lambda>p. rxCompile p \<noteq> None) (patternsOf rule) \<Longrightarrow> urlPatternStep jsEngine rule md \<noteq> Inl e"
  using testPatterns_compiled
  by (auto simp: urlPatternStep_def patternsOf_def split: option.splits)

lemma fieldStep_compiled:
  "list_all (\<lambda>p. rxCompile p \<noteq> None) (case pats of None \<Rightarrow> [] | Some ps \<Rightarrow> ps)
   \<Longrightarrow> fieldStep jsEngine pats field \<noteq> Inl e"
  using testPatterns_compiled
  by (auto simp: fieldStep_def split: option.splits sum.splits)

lemma metadataPatternStep_compiled:
  assumes "list_all (\<lambda>p. rxCompile p \<noteq> None) (patternsOf rule)"
  shows "metadataPatternStep jsEngine rule md \<noteq> Inl e"
proof (cases "cr_metadataPatterns rule")
  case None
  then show ?thesis by (simp add: metadataPatternStep_def)
next
  case (Some td)
  obtain t d where td: "td = (t, d)" by (cases td)
  from assms Some td
  have t: "list_all (\<lambda>p. rxCompile p \<noteq> None) (case t of None \<Rightarrow> [] | Some ps \<Rightarrow> ps)"
    and d: "list_all (\<lambda>p. rxCompile p \<noteq> None) (case d of None \<Rightarrow> [] | Some ps \<Rightarrow> ps)"
    by (simp_all add: patternsOf_def)
  have "fieldStep jsEngine t (title md) \<noteq> Inl e'" for e'
    using t by (rule fieldStep_compiled)
  moreover have "fieldStep jsEngine d (m_description md) \<noteq> Inl e'" for e'
    using d by (rule fieldStep_compiled)
  ultimately show ?thesis
    using Some td by (simp add: metadataPatternStep_def Let_def split: sum.splits)
qed

lemma platformRulesLoop_compiled:
  assumes "list_all (\<lambda>rule. list_all (\<lambda>p. rxCompile p \<noteq> None) (patternsOf rule)) rules"
  shows "platformRulesLoop jsEngine rules md \<noteq> Inl e"
proof (cases rules)
  case Nil
  then show ?thesis by simp
next
  case (Cons rule rest)
  with assms have c: "list_all (\<lambda>p. rxCompile p \<noteq> None) (patternsOf rule)" by simp
  have "urlPatternStep jsEngine rule md \<noteq> Inl e'" for e'
    using c by (rule urlPatternStep_compiled)
  moreover have "metadataPatternStep jsEngine rule md \<noteq> Inl e'" for e'
    using c by (rule metadataPatternStep_compiled)
  ultimately show ?thesis
    using Cons by (simp split: sum.splits bool.splits option.splits)
qed

lemma classify_compiled:
  assumes "patternsCompile rules"
  shows "classify jsEngine cfg rules pf md \<noteq> Inl e"
proof -
  from assms
  have "list_all (\<lambda>rule. list_all (\<lambda>p. rxCompile p \<noteq> None) (patternsOf rule))
          (filter (\<lambda>rule. cr_platform rule = pf) rules)"
    by (auto simp: patternsCompile_def list_all_iff)
  then have "applyPlatformRules jsEngine rules pf md \<noteq> Inl e'" for e'
    unfolding applyPlatformRules_def by (rule platformRulesLoop_compiled)
  then show ?thesis
    by (simp add: classify_def split: sum.splits prod.splits)
qed

text \<open>
  With the collaborators of the repository the body of \<open>detect\<close> does not reach
  its \<open>catch\<close>, whatever the metadata extractor does: the cache, the rule manager
  and the strategy decider do not throw, the classifier does not when its patterns
  compile, and a throw of the extractor is caught at the extraction step.
\<close>

theorem service_detect_reaches_no_catch:
  "patternsCompile (classifierRules s)
   \<Longrightarrow> fst (detectTry U (serviceComponents jsEngine X now) emx url s) \<noteq> Inl e"
proof -
  assume a: "patternsCompile (classifierRules s)"
  have c: "classify jsEngine cfg (classifierRules s) pf md \<noteq> Inl e'" for cfg pf md e'
    using a by (rule classify_compiled)
  show ?thesis
    using c
    by (auto simp: detectTry_def detectFrom_def serviceComponents_def extractStep_def
        split: prod.splits sum.splits option.splits)
qed

lemma default_rules_compile: "patternsCompile getDefaultRules"
  by code_simp

text \<open>
  The theorem at the service as its constructor builds it, whose classifier holds the
  default rules, with a metadata extractor that throws.
\<close>

theorem service_detect_reaches_no_catch_witness:
  "patternsCompile (classifierRules (newPlatformDetectorService 0))
   \<and> fst (detectTry jsURL (serviceComponents jsEngine throwingExtractor 0) True
            ''https://youtu.be/dQw4w9WgXcQ'' (newPlatformDetectorService 0))
       \<noteq> Inl (Error ''fetch failed'')"
proof -
  have p: "patternsCompile (classifierRules (newPlatformDetectorService 0))"
    using default_rules_compile by (simp add: newPlatformDetectorService_def)
  show ?thesis
    using service_detect_reaches_no_catch
      [where s = "newPlatformDetectorService 0" and U = jsURL and X = throwingExtractor
         and now = 0 and emx = True and url = "''https://youtu.be/dQw4w9WgXcQ''"
         and e = "Error ''fetch failed''"] p
    by simp
qed

section \<open>Detection: a video and an article on known platforms\<close>

text \<open>
  When the first rule registered for a platform has no metadata patterns and four
  fifths of its confidence reach the threshold, \<open>classify\<close> returns that rule's
  content type for every metadata.
\<close>

lemma classify_first_rule:
  assumes f: "filter (\<lambda>rule. cr_platform rule = pf) rules = rule # rest"
    and c: "list_all (\<lambda>p. rxCompile p \<noteq> None) (patternsOf rule)"
    and m: "cr_metadataPatterns rule = None"
    and t: "confidenceThreshold cfg \<le> cr_confidence rule * (8 / 10)"
    and p: "0 \<le> cr_confidence rule"
  shows "classify jsEngine cfg rules pf md = Inr (cr_contentType rule)"
proof -
  have u: "urlPatternStep jsEngine rule md \<noteq> Inl e" for e
    using c by (rule urlPatternStep_compiled)
  have t': "confidenceThreshold cfg \<le> cr_confidence rule"
    using t p by simp
  have "platformRulesLoop jsEngine (rule # rest) md = Inr (cr_contentType rule, cr_confidence rule)
        \<or> platformRulesLoop jsEngine (rule # rest) md
            = Inr (cr_contentType rule, cr_confidence rule * (8 / 10))"
    using u m by (simp add: metadataPatternStep_def split: sum.splits bool.splits)
  then show ?thesis
    using f t t' by (auto simp: classify_def applyPlatformRules_def)
qed

lemma youtube_rules:
  "filter (\<lambda>rule. cr_platform rule = youtube) getDefaultRules
   = mkClass youtube [''youtube~.com/watch'', ''youtu~.be/'', ''youtube~.com/shorts'']
       video (95 / 100) 100
     # [mkClass youtube [''youtube~.com/playlist''] video (9 / 10) 90]"
  by (simp add: getDefaultRules_def mkClass_def)

lemma medium_rules:
  "filter (\<lambda>rule. cr_platform rule = medium) getDefaultRules
   = mkClass medium [''medium~.com''] article (9 / 10) 100 # []"
  by (simp add: getDefaultRules_def mkClass_def)

lemma classify_youtube:
  "classify jsEngine defaultClassifierConfig getDefaultRules youtube md = Inr video"
proof -
  have c: "list_all (\<lambda>p. rxCompile p \<noteq> None)
             (patternsOf (mkClass youtube [''youtube~.com/watch'', ''youtu~.be/'', ''youtube~.com/shorts'']
                video (95 / 100) 100))"
    by code_simp
  show ?thesis
    using classify_first_rule [OF youtube_rules c, of defaultClassifierConfig md]
    by (simp add: mkClass_def defaultClassifierConfig_def)
qed

lemma classify_medium:
  "classify jsEngine defaultClassifierConfig getDefaultRules medium md = Inr article"
proof -
  have c: "list_all (\<lambda>p. rxCompile p \<noteq> None)
             (patternsOf (mkClass medium [''medium~.com''] article (9 / 10) 100))"
    by code_simp
  show ?thesis
    using classify_first_rule [OF medium_rules c, of defaultClassifierConfig md]
    by (simp add: mkClass_def defaultClassifierConfig_def)
qed

lemma serviceDetect_fresh:
  assumes n: "normalizeUrl jsURL url = n"
    and p: "d_platform (detectPlatform jsEngine (initializeRules []) n) = pf"
    and q: "d_confidence (detectPlatform jsEngine (initializeRules []) n) = conf"
    and c: "\<And>md. classify jsEngine defaultClassifierConfig getDefaultRules pf md = Inr ct"
    and d: "fst (decide (newStrategyDecider defaultUserStrategies None None) ct emptyContext 0 []) = st"
  shows "r_platform (fst (serviceDetect jsURL jsEngine X 0 url (newPlatformDetectorService 0))) = pf
    \<and> r_contentType (fst (serviceDetect jsURL jsEngine X 0 url (newPlatformDetectorService 0))) = ct
    \<and> r_confidence (fst (serviceDetect jsURL jsEngine X 0 url (newPlatformDetectorService 0))) = conf
    \<and> r_processingStrategy (fst (serviceDetect jsURL jsEngine X 0 url (newPlatformDetectorService 0)))
        = Some st
    \<and> r_error (fst (serviceDetect jsURL jsEngine X 0 url (newPlatformDetectorService 0))) = None"
proof -
  obtain h where h: "decide (newStrategyDecider defaultUserStrategies None None) ct emptyContext 0 []
                     = (st, h)"
    using d by (cases "decide (newStrategyDecider defaultUserStrategies None None) ct emptyContext 0 []")
      simp
  show ?thesis
    using n p q c h
    by (cases "X n pf"; cases "pf = generic")
       (simp_all add: serviceDetect_def detect_def detectTry_def detectFrom_def serviceComponents_def
        extractStep_def newPlatformDetectorService_def newCacheManager_def cacheGet_def
        buildResult_def)
qed

text \<open>
  A fresh service detects \<open>https://www.youtube.com/watch?v=dQw4w9WgXcQ\<close> as a
  YouTube video of confidence 0.9 to watch later, with no error, whatever the metadata
  extractor \<open>X\<close> returns or throws.
\<close>

theorem detect_youtube_watch:
  "r_platform (fst (serviceDetect jsURL jsEngine X 0 ''https://www.youtube.com/watch?v=dQw4w9WgXcQ''
      (newPlatformDetectorService 0))) = youtube
   \<and> r_contentType (fst (serviceDetect jsURL jsEngine X 0
        ''https://www.youtube.com/watch?v=dQw4w9WgXcQ'' (newPlatformDetectorService 0))) = video
   \<and> r_confidence (fst (serviceDetect jsURL jsEngine X 0
        ''https://www.youtube.com/watch?v=dQw4w9WgXcQ'' (newPlatformDetectorService 0))) = 9 / 10
   \<and> r_processingStrategy (fst (serviceDetect jsURL jsEngine X 0
        ''https://www.youtube.com/watch?v=dQw4w9WgXcQ'' (newPlatformDetectorService 0)))
       = Some watch_later
   \<and> r_error (fst (serviceDetect jsURL jsEngine X 0
        ''https://www.youtube.com/watch?v=dQw4w9WgXcQ'' (newPlatformDetectorService 0))) = None"
proof -
  have n: "normalizeUrl jsURL ''https://www.youtube.com/watch?v=dQw4w9WgXcQ''
           = ''https://www.youtube.com/watch?v=dQw4w9WgXcQ''"
    by code_simp
  have p: "d_platform (detectPlatform jsEngine (initializeRules [])
             ''https://www.youtube.com/watch?v=dQw4w9WgXcQ'') = youtube"
    by code_simp
  have q: "d_confidence (detectPlatform jsEngine (initializeRules [])
             ''https://www.youtube.com/watch?v=dQw4w9WgXcQ'') = 9 / 10"
    by code_simp
  have d: "fst (decide (newStrategyDecider defaultUserStrategies None None) video emptyContext 0 [])
           = watch_later"
    by code_simp
  show ?thesis
    by (rule serviceDetect_fresh [OF n p q classify_youtube d])
qed

text \<open>
  A fresh service detects \<open>https://medium.com/@user/some-article-title\<close> as a
  Medium article to clip, with no error, whatever the metadata extractor does.
\<close>

theorem detect_medium_article:
  "r_platform (fst (serviceDetect jsURL jsEngine X 0 ''https://medium.com/@user/some-article-title''
      (newPlatformDetectorService 0))) = medium
   \<and> r_contentType (fst (serviceDetect jsURL jsEngine X 0
        ''https://medium.com/@user/some-article-title'' (newPlatformDetectorService 0))) = article
   \<and> r_confidence (fst (serviceDetect jsURL jsEngine X 0
        ''https://medium.com/@user/some-article-title'' (newPlatformDetectorService 0))) = 9 / 10
   \<and> r_processingStrategy (fst (serviceDetect jsURL jsEngine X 0
        ''https://medium.com/@user/some-article-title'' (newPlatformDetectorService 0)))
       = Some clip
   \<and> r_error (fst (serviceDetect jsURL jsEngine X 0
        ''https://medium.com/@user/some-article-title'' (newPlatformDetectorService 0))) = None"
proof -
  have n: "normalizeUrl jsURL ''https://medium.com/@user/some-article-title''
           = ''https://medium.com/@user/some-article-title''"
    by code_simp
  have p: "d_platform (detectPlatform jsEngine (initializeRules [])
             ''https://medium.com/@user/some-article-title'') = medium"
    by code_simp
  have q: "d_confidence (detectPlatform jsEngine (initializeRules [])
             ''https://medium.com/@user/some-article-title'') = 9 / 10"
    by code_simp
  have d: "fst (decide (newStrategyDecider defaultUserStrategies None None) article emptyContext 0 [])
           = clip"
    by code_simp
  show ?thesis
    by (rule serviceDetect_fresh [OF n p q classify_medium d])
qed

end
